theory Spec2Isabelle
  imports Complex_Main "HOL-Library.Multiset"
begin

section \<open>Errors\<close>

text \<open>
  Every \<^verbatim>\<open>throw\<close> of the source is a value of this type. \<open>OutOfGrid\<close> stands for a
  read of \<^verbatim>\<open>this.grid[x][y][z]\<close> outside the array and \<open>NotFinite\<close> for a JavaScript
  number that is \<^verbatim>\<open>NaN\<close> or infinite.
\<close>

datatype error =
    InvalidOrientation
  | ItemNotFound string
  | TargetNotFound string
  | AlreadyWaste
  | InvalidPriority
  | InvalidDimensions
  | InvalidMass
  | OutOfGrid
  | NotFinite

section \<open>The Item class (models/Item.ts)\<close>

text \<open>
  Dates are milliseconds since the epoch, as \<^verbatim>\<open>Date.valueOf\<close> gives them; \<^verbatim>\<open>null\<close> is
  \<open>None\<close>. The fields \<^verbatim>\<open>currentContainerId\<close> and \<^verbatim>\<open>currentPosition\<close> are read and
  written by \<^verbatim>\<open>setLocation\<close>, \<^verbatim>\<open>clearLocation\<close> and \<^verbatim>\<open>clone\<close> only and are left out;
  the field \<^verbatim>\<open>itemId\<close> is \<open>itemIdent\<close>.
\<close>

record Item =
  itemIdent :: string
  name :: string
  itemWidth :: int
  itemDepth :: int
  itemHeight :: int
  mass :: rat
  priority :: int
  expiryDate :: "int option"
  usageLimit :: "int option"
  preferredZone :: string
  usageCount :: int
  isWaste :: bool

text \<open>The constructor: the three validations in source order, then the initial fields.\<close>

definition Item_new ::
  "string \<Rightarrow> string \<Rightarrow> int \<Rightarrow> int \<Rightarrow> int \<Rightarrow> rat \<Rightarrow> int \<Rightarrow> int option \<Rightarrow> int option \<Rightarrow> string
     \<Rightarrow> error + Item" where
  "Item_new iid nm w d h m p e ul z =
     (if p < 1 \<or> p > 100 then Inl InvalidPriority
      else if w \<le> 0 \<or> d \<le> 0 \<or> h \<le> 0 then Inl InvalidDimensions
      else if m \<le> 0 then Inl InvalidMass
      else Inr \<lparr> itemIdent = iid, name = nm, itemWidth = w, itemDepth = d, itemHeight = h,
                 mass = m, priority = p, expiryDate = e, usageLimit = ul, preferredZone = z,
                 usageCount = 0, isWaste = False \<rparr>)"

definition hasExpired :: "Item \<Rightarrow> int \<Rightarrow> bool" where
  "hasExpired i currentDate =
     (case expiryDate i of None \<Rightarrow> False | Some e \<Rightarrow> currentDate \<ge> e)"

text \<open>
  \<^verbatim>\<open>use()\<close> returns the updated item and the boolean the method returns; the throw
  happens before any field is written.
\<close>

definition use :: "Item \<Rightarrow> error + (Item \<times> bool)" where
  "use i =
     (if isWaste i then Inl AlreadyWaste
      else
        let i' = i\<lparr>usageCount := usageCount i + 1\<rparr> in
        (case usageLimit i' of
           None \<Rightarrow> Inr (i', False)
         | Some l \<Rightarrow>
             if usageCount i' \<ge> l then Inr (i'\<lparr>isWaste := True\<rparr>, True)
             else Inr (i', False)))"

text \<open>
  \<open>useTimes n i\<close> calls \<^verbatim>\<open>use()\<close> \<open>n\<close> times on the same object and collects what each
  call did: a call that throws leaves the object as it was.
\<close>

fun useTimes :: "nat \<Rightarrow> Item \<Rightarrow> Item \<times> (error + bool) list" where
  "useTimes 0 i = (i, [])"
| "useTimes (Suc n) i =
     (case use i of
        Inl e \<Rightarrow> (let (i', rs) = useTimes n i in (i', Inl e # rs))
      | Inr (i1, b) \<Rightarrow> (let (i', rs) = useTimes n i1 in (i', Inr b # rs)))"

definition getRemainingUses :: "Item \<Rightarrow> int option" where
  "getRemainingUses i =
     (case usageLimit i of None \<Rightarrow> None | Some l \<Rightarrow> Some (max 0 (l - usageCount i)))"

text \<open>\<^verbatim>\<open>checkIfWaste(currentDate)\<close>: the item after the call and the returned boolean.\<close>

definition checkIfWaste :: "Item \<Rightarrow> int \<Rightarrow> Item \<times> bool" where
  "checkIfWaste i currentDate =
     (if isWaste i then (i, True)
      else if hasExpired i currentDate then (i\<lparr>isWaste := True\<rparr>, True)
      else (case usageLimit i of
              None \<Rightarrow> (i, False)
            | Some l \<Rightarrow>
                if usageCount i \<ge> l then (i\<lparr>isWaste := True\<rparr>, True) else (i, False)))"

definition getWasteStatus :: "Item \<Rightarrow> bool" where
  "getWasteStatus i = isWaste i"


section \<open>Positions, dimensions and orientations (basic operations)\<close>

text \<open>
  Modelled from the spec: the classes \<^verbatim>\<open>Position\<close> and \<^verbatim>\<open>Dimensions\<close> come from the module
  \<^verbatim>\<open>spatial-grid-implementation\<close>, which is not among the sources. The code reads the
  fields \<^verbatim>\<open>x\<close>, \<^verbatim>\<open>y\<close>, \<^verbatim>\<open>z\<close> of a position and \<^verbatim>\<open>width\<close>, \<^verbatim>\<open>depth\<close>, \<^verbatim>\<open>height\<close> of a
  dimensions object; the spec takes coordinates as integers and dimensions as
  positive integers. Coordinates are \<open>int\<close>, so that \<^verbatim>\<open>itemPos.y - 1\<close> is \<open>-1\<close> at
  \<open>y = 0\<close> as in JavaScript.
\<close>

record Position =
  pos_x :: int
  pos_y :: int
  pos_z :: int

record Dimensions =
  width :: int
  depth :: int
  height :: int

definition positiveDims :: "Dimensions \<Rightarrow> bool" where
  "positiveDims d = (0 < width d \<and> 0 < depth d \<and> 0 < height d)"

record Orientation =
  widthAxis :: int
  depthAxis :: int
  heightAxis :: int

text \<open>
  The constructor sorts the three axes and compares with 0, 1, 2. (The default
  JavaScript sort orders by the decimal strings; a triple it turns into \<open>[0, 1, 2]\<close>
  is a permutation of 0, 1, 2 under either order.)
\<close>

definition Orientation_new :: "int \<Rightarrow> int \<Rightarrow> int \<Rightarrow> error + Orientation" where
  "Orientation_new wa da ha =
     (let axes = sort [wa, da, ha] in
      if axes ! 0 \<noteq> 0 \<or> axes ! 1 \<noteq> 1 \<or> axes ! 2 \<noteq> 2 then Inl InvalidOrientation
      else Inr \<lparr> widthAxis = wa, depthAxis = da, heightAxis = ha \<rparr>)"

text \<open>
  \<^verbatim>\<open>getEffectiveDimensions\<close> indexes the array of the three original dimensions by the
  orientation's axes, which the constructor has checked to be 0, 1 or 2.
\<close>

definition getEffectiveDimensions :: "Orientation \<Rightarrow> Dimensions \<Rightarrow> Dimensions" where
  "getEffectiveDimensions ori originalDimensions =
     (let dims = [width originalDimensions, depth originalDimensions,
                  height originalDimensions] in
      \<lparr> width = dims ! nat (widthAxis ori),
        depth = dims ! nat (depthAxis ori),
        height = dims ! nat (heightAxis ori) \<rparr>)"

text \<open>The six orientations, in the order \<^verbatim>\<open>getAllOrientations\<close> lists them.\<close>

definition getAllOrientations :: "Orientation list" where
  "getAllOrientations =
     [\<lparr> widthAxis = 0, depthAxis = 1, heightAxis = 2 \<rparr>,
      \<lparr> widthAxis = 0, depthAxis = 2, heightAxis = 1 \<rparr>,
      \<lparr> widthAxis = 1, depthAxis = 0, heightAxis = 2 \<rparr>,
      \<lparr> widthAxis = 1, depthAxis = 2, heightAxis = 0 \<rparr>,
      \<lparr> widthAxis = 2, depthAxis = 0, heightAxis = 1 \<rparr>,
      \<lparr> widthAxis = 2, depthAxis = 1, heightAxis = 0 \<rparr>]"

section \<open>Item objects of the container module\<close>

text \<open>
  The JavaScript modules pass items as plain objects. \<^verbatim>\<open>item.priority\<close> is a string
  there (\<^verbatim>\<open>"high"\<close>, \<^verbatim>\<open>"medium"\<close>, \<^verbatim>\<open>"low"\<close>), while \<^verbatim>\<open>Item.ts\<close> and the API carry a
  number 1..100: both kinds of value are kept apart by \<open>Priority\<close>. The expiry date
  is in milliseconds since the epoch.
\<close>

datatype Priority = PriorityTier string | PriorityNumber int

record ItemData =
  item_id :: string
  item_name :: string
  item_dimensions :: Dimensions
  item_mass :: rat
  item_priority :: Priority
  item_expiryDate :: "int option"
  item_preferredZone :: "string option"

text \<open>What \<^verbatim>\<open>itemsData\<close> stores: the item's fields with the placement added.\<close>

record PlacedItem = ItemData +
  position :: Position
  orientation :: Orientation
  effectiveDimensions :: Dimensions

section \<open>The priority multiplier of the placement ranker\<close>

text \<open>
  Step 4 of the scoring closure of \<^verbatim>\<open>recommendPlacement\<close>: the multiplier starts at
  1.0, is replaced for the strings \<^verbatim>\<open>"high"\<close> and \<^verbatim>\<open>"low"\<close> (strict equality, so a
  number equals neither), and grows by 0.5 when the item has an expiry date less
  than 30 days after \<open>now\<close>.
\<close>

definition priorityMultiplier :: "'a ItemData_scheme \<Rightarrow> int \<Rightarrow> rat" where
  "priorityMultiplier item now =
     (let priorityMultiplier0 =
            (if item_priority item = PriorityTier ''high'' then 3 / 2
             else if item_priority item = PriorityTier ''low'' then 4 / 5
             else 1)
      in case item_expiryDate item of
           None \<Rightarrow> priorityMultiplier0
         | Some expiry \<Rightarrow>
             (let daysUntilExpiry = of_int (expiry - now) / (1000 * 60 * 60 * 24) in
              if daysUntilExpiry < (30 :: rat) then priorityMultiplier0 + 1 / 2
              else priorityMultiplier0))"

text \<open>
  The multiplier in the spec's words, for comparison: an integer priority is mapped
  to a tier (at least 67 high, at least 34 medium, otherwise low), the tiers give
  1.5, 1.0 and 0.8, and an item expiring within 30 days gets 0.5 more.
\<close>

definition specTier :: "int \<Rightarrow> string" where
  "specTier n = (if n \<ge> 67 then ''high'' else if n \<ge> 34 then ''medium'' else ''low'')"

definition specMultiplier :: "Priority \<Rightarrow> bool \<Rightarrow> rat" where
  "specMultiplier p expiresWithin30Days =
     (let tier = (case p of PriorityTier t \<Rightarrow> t | PriorityNumber n \<Rightarrow> specTier n);
          mu = (if tier = ''high'' then 3 / 2 else if tier = ''medium'' then 1 else 4 / 5)
      in if expiresWithin30Days then mu + 1 / 2 else mu)"

section \<open>The container: occupancy grid and catalogue\<close>

datatype Face = Front | Back | Left | Right | Top | Bottom

type_synonym Cell = "int \<times> int \<times> int"

text \<open>
  Modelled from the spec: the fields \<^verbatim>\<open>grid\<close> and \<^verbatim>\<open>dimensions\<close> belong to the base class
  \<^verbatim>\<open>SpatialGrid\<close> (module \<^verbatim>\<open>spatial-grid-implementation\<close>), which is not among the
  sources. The array \<^verbatim>\<open>this.grid[x][y][z]\<close>, sized to the container and holding \<^verbatim>\<open>null\<close>
  or an item id in every cell, is the function \<open>grid\<close> read through \<open>gridAt\<close>, which
  fails outside \<^verbatim>\<open>this.dimensions\<close>; values of \<open>grid\<close> outside the dimensions stand for
  no cell.

  The other fields are those of \<^verbatim>\<open>EnhancedSpatialGrid\<close> and \<^verbatim>\<open>Container\<close>. A JavaScript
  \<^verbatim>\<open>Set\<close> of ids is a set, \<^verbatim>\<open>itemsData\<close> and \<^verbatim>\<open>itemsByExpiry\<close> are maps (the key of the
  latter is the UTC calendar day, as the ISO date string is), and an entry of
  \<^verbatim>\<open>accessHistory\<close> is kept without its time stamp. \<open>tempState\<close> is \<^verbatim>\<open>this._tempState\<close>.
\<close>

record Container =
  dimensions :: Dimensions
  grid :: "Cell \<Rightarrow> string option"
  openFace :: Face
  itemsData :: "string \<rightharpoonup> PlacedItem"
  containerId :: string
  zone :: string
  totalVolume :: int
  usedVolume :: int
  priorityItems :: "Priority \<rightharpoonup> string set"
  itemsByExpiry :: "int \<rightharpoonup> string set"
  accessHistory :: "(string \<times> string) list"
  tempState :: "(Cell \<Rightarrow> string option) option"

definition Container_new :: "string \<Rightarrow> Dimensions \<Rightarrow> string \<Rightarrow> Face \<Rightarrow> Container" where
  "Container_new cid dims zn face =
     \<lparr> dimensions = dims,
       grid = (\<lambda>c. None),
       openFace = face,
       itemsData = Map.empty,
       containerId = cid,
       zone = zn,
       totalVolume = width dims * depth dims * height dims,
       usedVolume = 0,
       priorityItems = [PriorityTier ''high'' \<mapsto> {}, PriorityTier ''medium'' \<mapsto> {},
                        PriorityTier ''low'' \<mapsto> {}],
       itemsByExpiry = Map.empty,
       accessHistory = [],
       tempState = None \<rparr>"

subsection \<open>Operations of the base class\<close>

text \<open>
  Modelled from the spec: \<^verbatim>\<open>isWithinBounds\<close> is a method of the missing base class
  \<^verbatim>\<open>SpatialGrid\<close>; a cell is within bounds when it is a cell of the container's box.
\<close>

definition isWithinBounds :: "Dimensions \<Rightarrow> Cell \<Rightarrow> bool" where
  "isWithinBounds dims c =
     (case c of (x, y, z) \<Rightarrow>
        0 \<le> x \<and> x < width dims \<and> 0 \<le> y \<and> y < depth dims \<and> 0 \<le> z \<and> z < height dims)"

text \<open>
  Modelled from the spec: a read of \<^verbatim>\<open>this.grid[x][y][z]\<close>, the array of the missing base
  class. Outside the array JavaScript throws a TypeError (\<open>x\<close> or \<open>y\<close> out of range) or
  yields \<^verbatim>\<open>undefined\<close> (\<open>z\<close> out of range); both are the failure \<open>OutOfGrid\<close> here, so a
  result \<open>Inr\<close> of any function below says that no read left the grid.
\<close>

definition gridAt :: "Container \<Rightarrow> Cell \<Rightarrow> error + string option" where
  "gridAt s c = (if isWithinBounds (dimensions s) c then Inr (grid s c) else Inl OutOfGrid)"

text \<open>
  Modelled from the spec: \<^verbatim>\<open>isPositionOccupied\<close> is a method of the missing base class;
  by the spec's \<^verbatim>\<open>cellAt\<close> a cell holds an id or is empty.
\<close>

definition isPositionOccupied :: "Container \<Rightarrow> Cell \<Rightarrow> error + bool" where
  "isPositionOccupied s c =
     (case gridAt s c of Inl e \<Rightarrow> Inl e | Inr v \<Rightarrow> Inr (v \<noteq> None))"

text \<open>The cells a triple loop from \<open>(sx, sy, sz)\<close> to \<open>(ex, ey, ez)\<close> inclusive visits, in order.\<close>

definition cellsBetween :: "int \<Rightarrow> int \<Rightarrow> int \<Rightarrow> int \<Rightarrow> int \<Rightarrow> int \<Rightarrow> Cell list" where
  "cellsBetween sx sy sz ex ey ez =
     concat (map (\<lambda>x. concat (map (\<lambda>y. map (\<lambda>z. (x, y, z)) [sz..ez]) [sy..ey])) [sx..ex])"

definition boxCells :: "Position \<Rightarrow> Dimensions \<Rightarrow> Cell list" where
  "boxCells p d =
     cellsBetween (pos_x p) (pos_y p) (pos_z p)
       (pos_x p + width d - 1) (pos_y p + depth d - 1) (pos_z p + height d - 1)"

text \<open>The spec's box: the half-open region \<open>[x, x+w) \<times> [y, y+d) \<times> [z, z+h)\<close>.\<close>

definition inBox :: "Position \<Rightarrow> Dimensions \<Rightarrow> Cell \<Rightarrow> bool" where
  "inBox p d c =
     (case c of (x, y, z) \<Rightarrow>
        pos_x p \<le> x \<and> x < pos_x p + width d \<and>
        pos_y p \<le> y \<and> y < pos_y p + depth d \<and>
        pos_z p \<le> z \<and> z < pos_z p + height d)"

text \<open>
  Modelled from the spec: \<^verbatim>\<open>isSpaceFree\<close> is a method of the missing base class (the
  spec's \<^verbatim>\<open>isFree\<close>): true iff every cell of the box is inside the container and
  empty.
\<close>

definition isSpaceFree :: "Container \<Rightarrow> Position \<Rightarrow> Dimensions \<Rightarrow> bool" where
  "isSpaceFree s p d =
     list_all (\<lambda>c. isWithinBounds (dimensions s) c \<and> grid s c = None) (boxCells p d)"

text \<open>
  Modelled from the spec: \<^verbatim>\<open>occupySpace\<close> is a method of the missing base class (the
  spec's \<^verbatim>\<open>occupy\<close>): it fills the box with the id.
\<close>

definition occupySpace :: "Container \<Rightarrow> Position \<Rightarrow> Dimensions \<Rightarrow> string \<Rightarrow> Container" where
  "occupySpace s p d itemId =
     s\<lparr>grid := (\<lambda>c. if inBox p d c then Some itemId else grid s c)\<rparr>"

text \<open>
  Modelled from the spec: \<^verbatim>\<open>releaseSpace\<close> is a method of the missing base class (the
  spec's \<^verbatim>\<open>release\<close>): it clears every cell currently holding the id.
\<close>

definition releaseSpace :: "Container \<Rightarrow> string \<Rightarrow> Container" where
  "releaseSpace s itemId =
     s\<lparr>grid := (\<lambda>c. if grid s c = Some itemId then None else grid s c)\<rparr>"

subsection \<open>\<^verbatim>\<open>EnhancedSpatialGrid\<close>: placement, visibility, blocking, retrieval\<close>

definition placeItem :: "Container \<Rightarrow> ItemData \<Rightarrow> Position \<Rightarrow> Orientation \<Rightarrow> Container \<times> bool" where
  "placeItem s itemData pos ori =
     (let effDims = getEffectiveDimensions ori (item_dimensions itemData) in
      if \<not> isSpaceFree s pos effDims then (s, False)
      else
        (let s1 = occupySpace s pos effDims (item_id itemData) in
         (s1\<lparr>itemsData := (itemsData s1)(item_id itemData \<mapsto>
                \<lparr> item_id = item_id itemData, item_name = item_name itemData,
                  item_dimensions = item_dimensions itemData, item_mass = item_mass itemData,
                  item_priority = item_priority itemData,
                  item_expiryDate = item_expiryDate itemData,
                  item_preferredZone = item_preferredZone itemData,
                  position = pos, orientation = ori, effectiveDimensions = effDims \<rparr>)\<rparr>,
          True)))"

text \<open>
  \<^verbatim>\<open>openFace\<close> is a string in the source and the \<^verbatim>\<open>default\<close> branch of the switch
  throws; with the six faces as a datatype that branch has no input.
\<close>

definition isItemVisible :: "Container \<Rightarrow> string \<Rightarrow> error + bool" where
  "isItemVisible s itemId =
     (case itemsData s itemId of
        None \<Rightarrow> Inl (ItemNotFound itemId)
      | Some item \<Rightarrow>
          (let itemPosition = position item; itemDims = effectiveDimensions item in
           Inr (case openFace s of
                  Front \<Rightarrow> pos_y itemPosition = 0
                | Back \<Rightarrow> pos_y itemPosition + depth itemDims - 1 = depth (dimensions s) - 1
                | Left \<Rightarrow> pos_x itemPosition = 0
                | Right \<Rightarrow> pos_x itemPosition + width itemDims - 1 = width (dimensions s) - 1
                | Top \<Rightarrow> pos_z itemPosition + height itemDims - 1 = height (dimensions s) - 1
                | Bottom \<Rightarrow> pos_z itemPosition = 0)))"

text \<open>
  The loop of \<^verbatim>\<open>isCellVisible\<close> over the cells between a cell and the open face:
  false at the first cell that is occupied and holds another id.
\<close>

fun pathClear :: "Container \<Rightarrow> string \<Rightarrow> Cell list \<Rightarrow> error + bool" where
  "pathClear s itemId [] = Inr True"
| "pathClear s itemId (c # cs) =
     (case isPositionOccupied s c of
        Inl e \<Rightarrow> Inl e
      | Inr occupied \<Rightarrow>
          if occupied then
            (case gridAt s c of
               Inl e \<Rightarrow> Inl e
             | Inr v \<Rightarrow> if v \<noteq> Some itemId then Inr False else pathClear s itemId cs)
          else pathClear s itemId cs)"

definition isCellVisible :: "Container \<Rightarrow> string \<Rightarrow> Cell \<Rightarrow> error + bool" where
  "isCellVisible s itemId c =
     (case c of (x, y, z) \<Rightarrow>
        (case openFace s of
           Front \<Rightarrow> pathClear s itemId (map (\<lambda>checkY. (x, checkY, z)) [0..y - 1])
         | Back \<Rightarrow> pathClear s itemId
                     (map (\<lambda>checkY. (x, checkY, z)) [y + 1..depth (dimensions s) - 1])
         | Left \<Rightarrow> pathClear s itemId (map (\<lambda>checkX. (checkX, y, z)) [0..x - 1])
         | Right \<Rightarrow> pathClear s itemId
                      (map (\<lambda>checkX. (checkX, y, z)) [x + 1..width (dimensions s) - 1])
         | Top \<Rightarrow> pathClear s itemId
                    (map (\<lambda>checkZ. (x, y, checkZ)) [z + 1..height (dimensions s) - 1])
         | Bottom \<Rightarrow> pathClear s itemId (map (\<lambda>checkZ. (x, y, checkZ)) [0..z - 1])))"

text \<open>The counting loop: \<open>visibleCells\<close> after the cells of the list.\<close>

fun countVisible :: "Container \<Rightarrow> string \<Rightarrow> Cell list \<Rightarrow> int \<Rightarrow> error + int" where
  "countVisible s itemId [] visibleCells = Inr visibleCells"
| "countVisible s itemId (c # cs) visibleCells =
     (case isCellVisible s itemId c of
        Inl e \<Rightarrow> Inl e
      | Inr v \<Rightarrow> countVisible s itemId cs (if v then visibleCells + 1 else visibleCells))"

text \<open>
  Numbers are exact rationals. A division by \<open>totalCells = 0\<close> is \<^verbatim>\<open>NaN\<close> or
  \<^verbatim>\<open>Infinity\<close> in JavaScript: the failure \<open>NotFinite\<close>.
\<close>

definition calculateVisibilityScore :: "Container \<Rightarrow> string \<Rightarrow> error + rat" where
  "calculateVisibilityScore s itemId =
     (case itemsData s itemId of
        None \<Rightarrow> Inl (ItemNotFound itemId)
      | Some item \<Rightarrow>
          (let itemPos = position item; itemDims = effectiveDimensions item;
               totalCells = width itemDims * depth itemDims * height itemDims in
           case countVisible s itemId (boxCells itemPos itemDims) 0 of
             Inl e \<Rightarrow> Inl e
           | Inr visibleCells \<Rightarrow>
               if totalCells = 0 then Inl NotFinite
               else Inr ((of_int visibleCells / of_int totalCells) * 100)))"

text \<open>
  \<^verbatim>\<open>checkCellsInPath\<close>: \<open>blockingItems\<close> is the \<^verbatim>\<open>Set\<close> in insertion order, which is the
  order \<^verbatim>\<open>Array.from\<close> returns.
\<close>

fun checkCellsInPath :: "Container \<Rightarrow> string \<Rightarrow> Cell list \<Rightarrow> string list \<Rightarrow> error + string list" where
  "checkCellsInPath s itemId [] blockingItems = Inr blockingItems"
| "checkCellsInPath s itemId (c # cs) blockingItems =
     (case gridAt s c of
        Inl e \<Rightarrow> Inl e
      | Inr None \<Rightarrow> checkCellsInPath s itemId cs blockingItems
      | Inr (Some cellContent) \<Rightarrow>
          if cellContent \<noteq> itemId then
            checkCellsInPath s itemId cs
              (if cellContent \<in> set blockingItems then blockingItems
               else blockingItems @ [cellContent])
          else checkCellsInPath s itemId cs blockingItems)"

text \<open>The cells \<^verbatim>\<open>findBlockingItems\<close> passes to \<^verbatim>\<open>checkCellsInPath\<close>, by open face.\<close>

definition pathCells :: "Container \<Rightarrow> PlacedItem \<Rightarrow> Cell list" where
  "pathCells s item =
     (let itemPos = position item; itemDims = effectiveDimensions item in
      case openFace s of
        Front \<Rightarrow>
          cellsBetween (pos_x itemPos) 0 (pos_z itemPos)
            (pos_x itemPos + width itemDims - 1) (pos_y itemPos - 1)
            (pos_z itemPos + height itemDims - 1)
      | Back \<Rightarrow>
          cellsBetween (pos_x itemPos) (pos_y itemPos + depth itemDims) (pos_z itemPos)
            (pos_x itemPos + width itemDims - 1) (depth (dimensions s) - 1)
            (pos_z itemPos + height itemDims - 1)
      | Left \<Rightarrow>
          cellsBetween 0 (pos_y itemPos) (pos_z itemPos)
            (pos_x itemPos - 1) (pos_y itemPos + depth itemDims - 1)
            (pos_z itemPos + height itemDims - 1)
      | Right \<Rightarrow>
          cellsBetween (pos_x itemPos + width itemDims) (pos_y itemPos) (pos_z itemPos)
            (width (dimensions s) - 1) (pos_y itemPos + depth itemDims - 1)
            (pos_z itemPos + height itemDims - 1)
      | Top \<Rightarrow>
          cellsBetween (pos_x itemPos) (pos_y itemPos) (pos_z itemPos + height itemDims)
            (pos_x itemPos + width itemDims - 1) (pos_y itemPos + depth itemDims - 1)
            (height (dimensions s) - 1)
      | Bottom \<Rightarrow>
          cellsBetween (pos_x itemPos) (pos_y itemPos) 0
            (pos_x itemPos + width itemDims - 1) (pos_y itemPos + depth itemDims - 1)
            (pos_z itemPos - 1))"

definition findBlockingItems :: "Container \<Rightarrow> string \<Rightarrow> error + string list" where
  "findBlockingItems s itemId =
     (case itemsData s itemId of
        None \<Rightarrow> Inl (ItemNotFound itemId)
      | Some item \<Rightarrow> checkCellsInPath s itemId (pathCells s item) [])"

text \<open>
  The distance component \<^verbatim>\<open>Math.max(0, 20 - (distance / maxDistance) * 20)\<close>. With
  \<open>maxDistance = 0\<close> the quotient is \<^verbatim>\<open>Infinity\<close> for a positive distance, which gives
  the component 0, and \<^verbatim>\<open>NaN\<close> or \<^verbatim>\<open>-Infinity\<close> otherwise, which gives a result that is
  not finite.
\<close>

definition distanceComponent :: "int \<Rightarrow> int \<Rightarrow> error + rat" where
  "distanceComponent distance maxDistance =
     (if maxDistance = 0 then (if distance > 0 then Inr 0 else Inl NotFinite)
      else Inr (max 0 (20 - (of_int distance / of_int maxDistance) * 20)))"

definition calculateAccessibilityScore :: "Container \<Rightarrow> string \<Rightarrow> error + rat" where
  "calculateAccessibilityScore s itemId =
     (case itemsData s itemId of
        None \<Rightarrow> Inl (ItemNotFound itemId)
      | Some item \<Rightarrow>
          (let itemPos = position item in
           case calculateVisibilityScore s itemId of
             Inl e \<Rightarrow> Inl e
           | Inr visibilityScore \<Rightarrow>
               (let visibilityComponent = (visibilityScore / 100) * 40 in
                case findBlockingItems s itemId of
                  Inl e \<Rightarrow> Inl e
                | Inr blockingItems \<Rightarrow>
                    (let blockingComponent =
                           max 0 (40 - (of_nat (length blockingItems) * 10));
                         distance =
                           (case openFace s of
                              Front \<Rightarrow> pos_y itemPos
                            | Back \<Rightarrow> depth (dimensions s)
                                        - (pos_y itemPos + depth (effectiveDimensions item))
                            | Left \<Rightarrow> pos_x itemPos
                            | Right \<Rightarrow> width (dimensions s)
                                         - (pos_x itemPos + width (effectiveDimensions item))
                            | Top \<Rightarrow> height (dimensions s)
                                       - (pos_z itemPos + height (effectiveDimensions item))
                            | Bottom \<Rightarrow> pos_z itemPos);
                         maxDistance =
                           (case openFace s of
                              Front \<Rightarrow> depth (dimensions s)
                            | Back \<Rightarrow> depth (dimensions s)
                            | Left \<Rightarrow> width (dimensions s)
                            | Right \<Rightarrow> width (dimensions s)
                            | Top \<Rightarrow> height (dimensions s)
                            | Bottom \<Rightarrow> height (dimensions s))
                     in case distanceComponent distance maxDistance of
                          Inl e \<Rightarrow> Inl e
                        | Inr dc \<Rightarrow> Inr (visibilityComponent + blockingComponent + dc)))))"

record RetrievalPlan =
  targetItem :: string
  itemsToMove :: "string list"
  steps :: "string list"

text \<open>
  The condition \<^verbatim>\<open>isItemVisible(id) && findBlockingItems(id).length === 0\<close>, with its
  short circuit: the blockers are not computed for an item that is not visible.
\<close>

definition visibleAndUnblocked :: "Container \<Rightarrow> string \<Rightarrow> error + bool" where
  "visibleAndUnblocked s itemId =
     (case isItemVisible s itemId of
        Inl e \<Rightarrow> Inl e
      | Inr visible \<Rightarrow>
          if visible then
            (case findBlockingItems s itemId of
               Inl e \<Rightarrow> Inl e
             | Inr blockingItems \<Rightarrow> Inr (length blockingItems = 0))
          else Inr False)"

definition generateRetrievalPlan :: "Container \<Rightarrow> string \<Rightarrow> error + RetrievalPlan" where
  "generateRetrievalPlan s targetItemId =
     (case itemsData s targetItemId of
        None \<Rightarrow> Inl (TargetNotFound targetItemId)
      | Some item \<Rightarrow>
          (case visibleAndUnblocked s targetItemId of
             Inl e \<Rightarrow> Inl e
           | Inr direct \<Rightarrow>
               if direct then
                 Inr \<lparr> targetItem = targetItemId, itemsToMove = [],
                       steps = [''Retrieve item '' @ targetItemId @ '' directly''] \<rparr>
               else
                 (case findBlockingItems s targetItemId of
                    Inl e \<Rightarrow> Inl e
                  | Inr blockingItems \<Rightarrow>
                      Inr \<lparr> targetItem = targetItemId,
                            itemsToMove = blockingItems,
                            steps =
                              map (\<lambda>blockingItemId.
                                     ''Move item '' @ blockingItemId @ '' to access ''
                                       @ targetItemId) blockingItems
                              @ [''Retrieve item '' @ targetItemId] \<rparr>)))"

subsection \<open>\<^verbatim>\<open>Container\<close>: removal and fragmentation analysis\<close>

definition isItemAccessible :: "Container \<Rightarrow> string \<Rightarrow> error + bool" where
  "isItemAccessible s itemId = visibleAndUnblocked s itemId"

definition updateContainerMetricsAfterAdd :: "Container \<Rightarrow> ItemData \<Rightarrow> Container" where
  "updateContainerMetricsAfterAdd s item =
     (let s1 =
            (case priorityItems s (item_priority item) of
               None \<Rightarrow> s
             | Some ids \<Rightarrow>
                 s\<lparr>priorityItems :=
                     (priorityItems s)(item_priority item \<mapsto> insert (item_id item) ids)\<rparr>);
          s2 =
            (case item_expiryDate item of
               None \<Rightarrow> s1
             | Some e \<Rightarrow>
                 (let expiryStr = e div 86400000;
                      ids = (case itemsByExpiry s1 expiryStr of None \<Rightarrow> {} | Some ids \<Rightarrow> ids)
                  in s1\<lparr>itemsByExpiry :=
                          (itemsByExpiry s1)(expiryStr \<mapsto> insert (item_id item) ids)\<rparr>));
          volume = width (item_dimensions item) * depth (item_dimensions item)
                     * height (item_dimensions item)
      in s2\<lparr>usedVolume := usedVolume s2 + volume\<rparr>)"

definition updateContainerMetricsAfterRemove :: "Container \<Rightarrow> PlacedItem \<Rightarrow> Container" where
  "updateContainerMetricsAfterRemove s itemData =
     (let s1 =
            (case priorityItems s (item_priority itemData) of
               None \<Rightarrow> s
             | Some ids \<Rightarrow>
                 s\<lparr>priorityItems :=
                     (priorityItems s)(item_priority itemData \<mapsto> ids - {item_id itemData})\<rparr>);
          s2 =
            (case item_expiryDate itemData of
               None \<Rightarrow> s1
             | Some e \<Rightarrow>
                 (let expiryStr = e div 86400000 in
                  case itemsByExpiry s1 expiryStr of
                    None \<Rightarrow> s1
                  | Some ids \<Rightarrow>
                      if ids - {item_id itemData} = {}
                      then s1\<lparr>itemsByExpiry := (itemsByExpiry s1)(expiryStr := None)\<rparr>
                      else s1\<lparr>itemsByExpiry :=
                               (itemsByExpiry s1)(expiryStr \<mapsto> ids - {item_id itemData})\<rparr>));
          volume = width (item_dimensions itemData) * depth (item_dimensions itemData)
                     * height (item_dimensions itemData)
      in s2\<lparr>usedVolume := usedVolume s2 - volume\<rparr>)"

definition recordAccess :: "Container \<Rightarrow> string \<Rightarrow> string \<Rightarrow> Container" where
  "recordAccess s itemId operation =
     s\<lparr>accessHistory := accessHistory s @ [(itemId, operation)]\<rparr>"

datatype RemoveResult =
    RemoveNotFound string
  | RemoveNotAccessible RetrievalPlan
  | RemoveSuccess PlacedItem

text \<open>
  \<^verbatim>\<open>removeItem\<close>: the container after the call and the returned object. Nothing in
  the sources deletes the entry of \<^verbatim>\<open>itemsData\<close>; \<^verbatim>\<open>releaseSpace\<close> belongs to the base
  class, which does not know that map.
\<close>

definition removeItem :: "Container \<Rightarrow> string \<Rightarrow> error + (Container \<times> RemoveResult)" where
  "removeItem s itemId =
     (case itemsData s itemId of
        None \<Rightarrow> Inr (s, RemoveNotFound itemId)
      | Some itemData \<Rightarrow>
          (case isItemAccessible s itemId of
             Inl e \<Rightarrow> Inl e
           | Inr isAccessible \<Rightarrow>
               if \<not> isAccessible then
                 (case generateRetrievalPlan s itemId of
                    Inl e \<Rightarrow> Inl e
                  | Inr plan \<Rightarrow> Inr (s, RemoveNotAccessible plan))
               else
                 (let s1 = releaseSpace s itemId;
                      s2 = updateContainerMetricsAfterRemove s1 itemData;
                      s3 = recordAccess s2 itemId ''remove''
                  in Inr (s3, RemoveSuccess itemData))))"

text \<open>
  \<^verbatim>\<open>temporarilyOccupySpace\<close>: the first call saves a deep copy of the grid
  (\<^verbatim>\<open>JSON.parse(JSON.stringify(this.grid))\<close>, which copies an array of strings and
  \<^verbatim>\<open>null\<close> as it is); every call marks the cells of the box that are within bounds.
\<close>

definition temporarilyOccupySpace :: "Container \<Rightarrow> Position \<Rightarrow> Dimensions \<Rightarrow> Container" where
  "temporarilyOccupySpace s p d =
     (let s1 = (case tempState s of None \<Rightarrow> s\<lparr>tempState := Some (grid s)\<rparr> | Some g \<Rightarrow> s) in
      s1\<lparr>grid := (\<lambda>c. if inBox p d c \<and> isWithinBounds (dimensions s1) c
                        then Some ''TEMP_OCCUPIED'' else grid s1 c)\<rparr>)"

definition restoreTemporaryState :: "Container \<Rightarrow> Container" where
  "restoreTemporaryState s =
     (case tempState s of
        None \<Rightarrow> s
      | Some g \<Rightarrow> s\<lparr>grid := g, tempState := None\<rparr>)"

record EmptySpace =
  space_position :: Position
  space_dimensions :: Dimensions
  volume :: int

text \<open>
  The loop of \<^verbatim>\<open>analyzeSpaceFragmentation\<close>. \<^verbatim>\<open>findLargestEmptySpace\<close> is a method of the
  missing base class and is the parameter \<open>fles\<close>: any function of the container that
  returns a box or \<^verbatim>\<open>null\<close>. The loop ends when there is no box, when the collected
  volume reaches the free volume, or after the eleventh box.
\<close>

function fragmentationLoop ::
  "(Container \<Rightarrow> (Position \<times> Dimensions) option) \<Rightarrow> Container
     \<Rightarrow> (Position \<times> Dimensions) option \<Rightarrow> EmptySpace list \<Rightarrow> int
     \<Rightarrow> Container \<times> EmptySpace list \<times> int" where
  "fragmentationLoop fles s largestSpace emptySpaces totalEmptyVolume =
     (case largestSpace of
        None \<Rightarrow> (s, emptySpaces, totalEmptyVolume)
      | Some (p, d) \<Rightarrow>
          if \<not> totalEmptyVolume < totalVolume s - usedVolume s
          then (s, emptySpaces, totalEmptyVolume)
          else
            (let spaceVolume = width d * depth d * height d;
                 emptySpaces' = emptySpaces @
                   [\<lparr> space_position = p, space_dimensions = d, volume = spaceVolume \<rparr>];
                 totalEmptyVolume' = totalEmptyVolume + spaceVolume;
                 s' = temporarilyOccupySpace s p d;
                 largestSpace' = fles s'
             in if length emptySpaces' > 10 then (s', emptySpaces', totalEmptyVolume')
                else fragmentationLoop fles s' largestSpace' emptySpaces' totalEmptyVolume'))"
  by pat_completeness auto
termination
  by (relation "measure (\<lambda>(fles, s, largestSpace, emptySpaces, totalEmptyVolume).
                            11 - length emptySpaces)") auto

text \<open>
  The report: \<^verbatim>\<open>fragmentationIndex\<close> is kept as the exact quotient (\<open>None\<close> where the
  free volume is 0 and JavaScript divides by zero) instead of its two-decimal string.
\<close>

record FragmentationReport =
  fragmentationIndex :: "rat option"
  largestEmptyVolume :: int
  emptySpaces :: nat
  contiguousSpaces :: "EmptySpace list"

definition analyzeSpaceFragmentation ::
  "(Container \<Rightarrow> (Position \<times> Dimensions) option) \<Rightarrow> Container
     \<Rightarrow> Container \<times> FragmentationReport" where
  "analyzeSpaceFragmentation fles s =
     (case fragmentationLoop fles s (fles s) [] 0 of
        (s1, spaces, totalEmptyVolume) \<Rightarrow>
          (let s2 = restoreTemporaryState s1;
               largest = (case spaces of [] \<Rightarrow> 0 | e # es \<Rightarrow> volume e);
               free = totalVolume s2 - usedVolume s2
           in (s2,
               \<lparr> fragmentationIndex =
                   (if free = 0 then None else Some (of_int largest / of_int free)),
                 largestEmptyVolume = largest,
                 emptySpaces = length spaces,
                 contiguousSpaces = spaces \<rparr>)))"

section \<open>Placed items, corridors, reachable containers\<close>

text \<open>
  The spec's invariant for a catalogue entry: positive dimensions and a box inside the
  container.
\<close>

definition boxInside :: "Dimensions \<Rightarrow> Position \<Rightarrow> Dimensions \<Rightarrow> bool" where
  "boxInside cd p d =
     (positiveDims d \<and>
      0 \<le> pos_x p \<and> pos_x p + width d \<le> width cd \<and>
      0 \<le> pos_y p \<and> pos_y p + depth d \<le> depth cd \<and>
      0 \<le> pos_z p \<and> pos_z p + height d \<le> height cd)"

text \<open>
  The extraction corridor in the spec's words: the item's box projected along the
  extraction axis onto the open face, extruded from the item's near face to the open
  face. Front opens at \<open>y = 0\<close>, back at \<open>y = depth - 1\<close>, left at \<open>x = 0\<close>, right at
  \<open>x = width - 1\<close>, bottom at \<open>z = 0\<close>, top at \<open>z = height - 1\<close>.
\<close>

definition inCorridor :: "Container \<Rightarrow> PlacedItem \<Rightarrow> Cell \<Rightarrow> bool" where
  "inCorridor s item c =
     (case c of (x, y, z) \<Rightarrow>
        (let p = position item; d = effectiveDimensions item;
             inX = (pos_x p \<le> x \<and> x < pos_x p + width d);
             inY = (pos_y p \<le> y \<and> y < pos_y p + depth d);
             inZ = (pos_z p \<le> z \<and> z < pos_z p + height d)
         in case openFace s of
              Front \<Rightarrow> inX \<and> inZ \<and> 0 \<le> y \<and> y < pos_y p
            | Back \<Rightarrow> inX \<and> inZ \<and> pos_y p + depth d \<le> y \<and> y < depth (dimensions s)
            | Left \<Rightarrow> inY \<and> inZ \<and> 0 \<le> x \<and> x < pos_x p
            | Right \<Rightarrow> inY \<and> inZ \<and> pos_x p + width d \<le> x \<and> x < width (dimensions s)
            | Bottom \<Rightarrow> inX \<and> inY \<and> 0 \<le> z \<and> z < pos_z p
            | Top \<Rightarrow> inX \<and> inY \<and> pos_z p + height d \<le> z \<and> z < height (dimensions s)))"

text \<open>All cells of the container, and the ids found in them.\<close>

definition allCells :: "Dimensions \<Rightarrow> Cell list" where
  "allCells cd = cellsBetween 0 0 0 (width cd - 1) (depth cd - 1) (height cd - 1)"

definition holdsCells :: "Container \<Rightarrow> string \<Rightarrow> bool" where
  "holdsCells s itemId = list_ex (\<lambda>c. grid s c = Some itemId) (allCells (dimensions s))"

text \<open>
  A placed item: it has an entry in the catalogue and cells in the grid. (After a
  successful \<^verbatim>\<open>removeItem\<close> the entry stays but the cells are gone.)
\<close>

definition placed :: "Container \<Rightarrow> string \<Rightarrow> bool" where
  "placed s itemId = (itemsData s itemId \<noteq> None \<and> holdsCells s itemId)"

text \<open>
  The containers reachable by accepted operations: a new container of positive
  dimensions, then every \<^verbatim>\<open>placeItem\<close> that returns true (for an item of positive
  dimensions in one of the six orientations), every \<^verbatim>\<open>addItem\<close> that succeeds and
  every \<^verbatim>\<open>removeItem\<close> that succeeds. A successful \<^verbatim>\<open>addItem\<close> is, for an id not yet in
  the catalogue, an accepted \<^verbatim>\<open>placeItem\<close> at a position and orientation of its
  choosing followed by \<^verbatim>\<open>updateContainerMetricsAfterAdd\<close>; the rule allows every
  choice.
\<close>

inductive reachable :: "Container \<Rightarrow> bool" where
  reachable_new:
    "positiveDims dims \<Longrightarrow> reachable (Container_new cid dims zn face)"
| reachable_place:
    "reachable s \<Longrightarrow> positiveDims (item_dimensions itemData) \<Longrightarrow>
     ori \<in> set getAllOrientations \<Longrightarrow> placeItem s itemData pos ori = (s', True) \<Longrightarrow>
     reachable s'"
| reachable_add:
    "reachable s \<Longrightarrow> itemsData s (item_id itemData) = None \<Longrightarrow>
     positiveDims (item_dimensions itemData) \<Longrightarrow> ori \<in> set getAllOrientations \<Longrightarrow>
     placeItem s itemData pos ori = (s1, True) \<Longrightarrow>
     reachable (updateContainerMetricsAfterAdd s1 itemData)"
| reachable_remove:
    "reachable s \<Longrightarrow> removeItem s itemId = Inr (s', RemoveSuccess itemData) \<Longrightarrow>
     reachable s'"

section \<open>A seed scenario\<close>

text \<open>
  The spec's third seed scenario, with one more item: a front-open container of
  \<open>4 \<times> 4 \<times> 4\<close> cells, \<open>ITEM_A\<close> (\<open>2 \<times> 2 \<times> 2\<close>) at \<open>(0,0,0)\<close>, \<open>ITEM_B\<close> (\<open>2 \<times> 2 \<times> 2\<close>) behind
  it at \<open>(0,2,0)\<close>, and \<open>ITEM_C\<close> (\<open>2 \<times> 2 \<times> 2\<close>) at \<open>(2,0,0)\<close>, in front in depth but beside the
  footprint of \<open>ITEM_B\<close>.
\<close>

definition seedItem :: "string \<Rightarrow> int \<Rightarrow> int \<Rightarrow> int \<Rightarrow> ItemData" where
  "seedItem iid w d h =
     \<lparr> item_id = iid, item_name = iid,
       item_dimensions = \<lparr> width = w, depth = d, height = h \<rparr>, item_mass = 1,
       item_priority = PriorityTier ''medium'', item_expiryDate = None,
       item_preferredZone = None \<rparr>"

definition standardOrientation :: Orientation where
  "standardOrientation = \<lparr> widthAxis = 0, depthAxis = 1, heightAxis = 2 \<rparr>"

definition seedEmpty :: Container where
  "seedEmpty =
     Container_new ''CONT001'' \<lparr> width = 4, depth = 4, height = 4 \<rparr> ''general'' Front"

definition seedA :: Container where
  "seedA = fst (placeItem seedEmpty (seedItem ''ITEM_A'' 2 2 2)
                  \<lparr> pos_x = 0, pos_y = 0, pos_z = 0 \<rparr> standardOrientation)"

definition seedAB :: Container where
  "seedAB = fst (placeItem seedA (seedItem ''ITEM_B'' 2 2 2)
                   \<lparr> pos_x = 0, pos_y = 2, pos_z = 0 \<rparr> standardOrientation)"

definition seedABC :: Container where
  "seedABC = fst (placeItem seedAB (seedItem ''ITEM_C'' 2 2 2)
                    \<lparr> pos_x = 2, pos_y = 0, pos_z = 0 \<rparr> standardOrientation)"


text \<open>
  A stand-in for \<^verbatim>\<open>findLargestEmptySpace\<close> in examples: the first empty cell in loop
  order, as a box of one cell.
\<close>

definition firstEmptyCell :: "Container \<Rightarrow> (Position \<times> Dimensions) option" where
  "firstEmptyCell s =
     (case find (\<lambda>c. grid s c = None) (allCells (dimensions s)) of
        None \<Rightarrow> None
      | Some (x, y, z) \<Rightarrow>
          Some (\<lparr> pos_x = x, pos_y = y, pos_z = z \<rparr>, \<lparr> width = 1, depth = 1, height = 1 \<rparr>))"

text \<open>
  The container a pending snapshot stands for: the saved grid in place of the
  scratch grid, and no snapshot.
\<close>

definition withoutScratch :: "Container \<Rightarrow> Container" where
  "withoutScratch s =
     s\<lparr>grid := (case tempState s of None \<Rightarrow> grid s | Some g \<Rightarrow> g), tempState := None\<rparr>"

text \<open>A small empty container, \<open>2 \<times> 2 \<times> 1\<close> cells.\<close>

definition seedSmall :: Container where
  "seedSmall =
     Container_new ''CONT002'' \<lparr> width = 2, depth = 2, height = 1 \<rparr> ''general'' Front"

section \<open>Auxiliary notions for the visibility proofs\<close>

text \<open>
  The cells \<^verbatim>\<open>isCellVisible\<close> inspects for a cell: those strictly between it and the
  open face along the extraction axis.
\<close>

definition sightLine :: "Container \<Rightarrow> Cell \<Rightarrow> Cell list" where
  "sightLine s c =
     (case c of (x, y, z) \<Rightarrow>
        (case openFace s of
           Front \<Rightarrow> map (\<lambda>checkY. (x, checkY, z)) [0..y - 1]
         | Back \<Rightarrow> map (\<lambda>checkY. (x, checkY, z)) [y + 1..depth (dimensions s) - 1]
         | Left \<Rightarrow> map (\<lambda>checkX. (checkX, y, z)) [0..x - 1]
         | Right \<Rightarrow> map (\<lambda>checkX. (checkX, y, z)) [x + 1..width (dimensions s) - 1]
         | Top \<Rightarrow> map (\<lambda>checkZ. (x, y, checkZ)) [z + 1..height (dimensions s) - 1]
         | Bottom \<Rightarrow> map (\<lambda>checkZ. (x, y, checkZ)) [0..z - 1]))"

text \<open>
  The invariant of reachable containers: the container has positive dimensions;
  every catalogue entry has a box of positive dimensions inside the container; and an
  entry whose id is in the grid at all has its id in every cell of its box.
\<close>

definition catalogueConsistent :: "Container \<Rightarrow> bool" where
  "catalogueConsistent s =
     (positiveDims (dimensions s) \<and>
      (\<forall>itemId item. itemsData s itemId = Some item \<longrightarrow>
         boxInside (dimensions s) (position item) (effectiveDimensions item) \<and>
         (holdsCells s itemId \<longrightarrow>
            (\<forall>c. inBox (position item) (effectiveDimensions item) c
                   \<longrightarrow> grid s c = Some itemId))))"

section \<open>Usage and waste\<close>

lemma use_waste: "isWaste i \<Longrightarrow> use i = Inl AlreadyWaste"
  by (simp add: use_def)

lemma useTimes_waste:
  "isWaste i \<Longrightarrow> useTimes n i = (i, replicate n (Inl AlreadyWaste))"
  by (induction n) (simp_all add: use_waste)

text \<open>
  C6. An item created with usage limit 3 (usage count 0): the first two calls of
  \<^verbatim>\<open>use()\<close> succeed, return false and leave the item not waste; the third succeeds,
  returns true and marks the item waste; every later call throws and changes
  nothing, the usage count staying at 3.
\<close>

theorem use_limit_three:
  assumes "Item_new iid nm w d h m p e (Some 3) z = Inr i0"
  shows "\<exists>i1 i2 i3.
           usageCount i0 = 0 \<and> \<not> isWaste i0 \<and>
           use i0 = Inr (i1, False) \<and> \<not> isWaste i1 \<and> usageCount i1 = 1 \<and>
           use i1 = Inr (i2, False) \<and> \<not> isWaste i2 \<and> usageCount i2 = 2 \<and>
           use i2 = Inr (i3, True) \<and> isWaste i3 \<and> usageCount i3 = 3 \<and>
           use i3 = Inl AlreadyWaste \<and>
           (\<forall>n. useTimes n i3 = (i3, replicate n (Inl AlreadyWaste)))"
proof -
  from assms have i0: "usageCount i0 = 0" "\<not> isWaste i0" "usageLimit i0 = Some 3"
    by (auto simp: Item_new_def split: if_splits)
  define i1 where "i1 = i0\<lparr>usageCount := 1\<rparr>"
  define i2 where "i2 = i0\<lparr>usageCount := 2\<rparr>"
  define i3 where "i3 = i0\<lparr>usageCount := 3, isWaste := True\<rparr>"
  have u1: "use i0 = Inr (i1, False)"
    using i0 by (simp add: use_def i1_def Let_def)
  have u2: "use i1 = Inr (i2, False)"
    using i0 by (simp add: use_def i1_def i2_def Let_def)
  have u3: "use i2 = Inr (i3, True)"
    using i0 by (simp add: use_def i2_def i3_def Let_def)
  have w3: "isWaste i3" by (simp add: i3_def)
  have "\<forall>n. useTimes n i3 = (i3, replicate n (Inl AlreadyWaste))"
    using w3 by (simp add: useTimes_waste)
  moreover have "use i3 = Inl AlreadyWaste"
    using w3 by (rule use_waste)
  moreover have "\<not> isWaste i1" "usageCount i1 = 1" "\<not> isWaste i2" "usageCount i2 = 2"
    "usageCount i3 = 3"
    using i0 by (simp_all add: i1_def i2_def i3_def)
  ultimately show ?thesis
    using i0 u1 u2 u3 w3 by blast
qed

theorem use_limit_three_witness:
  "\<exists>i0 i1 i2 i3.
     Item_new ''I1'' ''Filter'' 1 1 1 1 50 None (Some 3) ''A'' = Inr i0 \<and>
     use i0 = Inr (i1, False) \<and> \<not> isWaste i1 \<and>
     use i1 = Inr (i2, False) \<and> \<not> isWaste i2 \<and>
     use i2 = Inr (i3, True) \<and> isWaste i3 \<and>
     use i3 = Inl AlreadyWaste \<and>
     useTimes 2 i3 = (i3, [Inl AlreadyWaste, Inl AlreadyWaste])"
proof -
  obtain i0 where c: "Item_new ''I1'' ''Filter'' 1 1 1 1 50 None (Some 3) ''A'' = Inr i0"
    by (simp add: Item_new_def)
  from use_limit_three [OF c] obtain i1 i2 i3 where
    "use i0 = Inr (i1, False)" "\<not> isWaste i1"
    "use i1 = Inr (i2, False)" "\<not> isWaste i2"
    "use i2 = Inr (i3, True)" "isWaste i3"
    "use i3 = Inl AlreadyWaste"
    "\<forall>n. useTimes n i3 = (i3, replicate n (Inl AlreadyWaste))"
    by blast
  moreover from this have "useTimes 2 i3 = (i3, [Inl AlreadyWaste, Inl AlreadyWaste])"
    by (simp add: numeral_2_eq_2)
  ultimately show ?thesis using c by blast
qed

text \<open>
  C10. \<^verbatim>\<open>checkIfWaste\<close> writes the object: on an item that is not marked waste but has
  passed its expiry date, or has used up its usage limit, the call sets \<open>isWaste\<close>,
  changes nothing else and returns true; after it \<^verbatim>\<open>use()\<close> throws, on this and on every
  later call.
\<close>

theorem checkIfWaste_marks_waste:
  assumes "\<not> isWaste i"
    and "hasExpired i now \<or> (\<exists>l. usageLimit i = Some l \<and> usageCount i \<ge> l)"
  shows "checkIfWaste i now = (i\<lparr>isWaste := True\<rparr>, True)
         \<and> fst (checkIfWaste i now) \<noteq> i
         \<and> use (fst (checkIfWaste i now)) = Inl AlreadyWaste
         \<and> (\<forall>n. useTimes n (fst (checkIfWaste i now))
                  = (fst (checkIfWaste i now), replicate n (Inl AlreadyWaste)))"
proof -
  have c: "checkIfWaste i now = (i\<lparr>isWaste := True\<rparr>, True)"
    using assms by (auto simp: checkIfWaste_def)
  have ne: "i\<lparr>isWaste := True\<rparr> \<noteq> i"
  proof
    assume "i\<lparr>isWaste := True\<rparr> = i"
    then have "isWaste (i\<lparr>isWaste := True\<rparr>) = isWaste i" by simp
    with assms(1) show False by simp
  qed
  have w: "isWaste (i\<lparr>isWaste := True\<rparr>)" by simp
  show ?thesis
    using c ne use_waste [OF w] useTimes_waste [OF w] by simp
qed

theorem checkIfWaste_marks_waste_witness:
  "\<exists>i. Item_new ''I2'' ''Ration'' 1 1 1 1 50 (Some 1000) None ''A'' = Inr i \<and>
       \<not> isWaste i \<and> hasExpired i 2000 \<and>
       use i = Inr (i\<lparr>usageCount := 1\<rparr>, False) \<and>
       checkIfWaste i 2000 = (i\<lparr>isWaste := True\<rparr>, True) \<and>
       use (fst (checkIfWaste i 2000)) = Inl AlreadyWaste"
proof -
  obtain i where c: "Item_new ''I2'' ''Ration'' 1 1 1 1 50 (Some 1000) None ''A'' = Inr i"
    by (simp add: Item_new_def)
  then have f: "\<not> isWaste i" "expiryDate i = Some 1000" "usageLimit i = None"
    by (auto simp: Item_new_def)
  have e: "hasExpired i 2000" using f by (simp add: hasExpired_def)
  have u: "use i = Inr (i\<lparr>usageCount := 1\<rparr>, False)"
    using c by (auto simp: Item_new_def use_def Let_def)
  from checkIfWaste_marks_waste [OF f(1) disjI1 [OF e]]
  have "checkIfWaste i 2000 = (i\<lparr>isWaste := True\<rparr>, True)"
    "use (fst (checkIfWaste i 2000)) = Inl AlreadyWaste"
    by blast+
  with c f e u show ?thesis by blast
qed

section \<open>Orientations\<close>

lemma getAllOrientations_constructed:
  "map Inr getAllOrientations =
     [Orientation_new 0 1 2, Orientation_new 0 2 1, Orientation_new 1 0 2,
      Orientation_new 1 2 0, Orientation_new 2 0 1, Orientation_new 2 1 0]"
  by (simp add: getAllOrientations_def Orientation_new_def)

lemma effective_dimensions_all:
  "map (\<lambda>ori. getEffectiveDimensions ori \<lparr> width = w, depth = d, height = h \<rparr>)
       getAllOrientations =
   [\<lparr> width = w, depth = d, height = h \<rparr>,
    \<lparr> width = w, depth = h, height = d \<rparr>,
    \<lparr> width = d, depth = w, height = h \<rparr>,
    \<lparr> width = d, depth = h, height = w \<rparr>,
    \<lparr> width = h, depth = w, height = d \<rparr>,
    \<lparr> width = h, depth = d, height = w \<rparr>]"
  by (simp add: getAllOrientations_def getEffectiveDimensions_def)

lemma mset_triple:
  "mset [a, b, c] = mset [w, d, h] \<longleftrightarrow>
     (a = w \<and> b = d \<and> c = h) \<or> (a = w \<and> b = h \<and> c = d) \<or>
     (a = d \<and> b = w \<and> c = h) \<or> (a = d \<and> b = h \<and> c = w) \<or>
     (a = h \<and> b = w \<and> c = d) \<or> (a = h \<and> b = d \<and> c = w)"
  by (auto simp: add_eq_conv_diff add_mset_eq_single)

lemma effective_dimensions_positive:
  assumes "ori \<in> set getAllOrientations" and "positiveDims d"
  shows "positiveDims (getEffectiveDimensions ori d)"
  using assms
  by (auto simp: getAllOrientations_def getEffectiveDimensions_def positiveDims_def)

text \<open>
  C8. For positive original dimensions \<open>(w, d, h)\<close>, the six orientations of
  \<^verbatim>\<open>getAllOrientations\<close>, applied in order, give the six triples \<open>(w,d,h)\<close>, \<open>(w,h,d)\<close>,
  \<open>(d,w,h)\<close>, \<open>(d,h,w)\<close>, \<open>(h,w,d)\<close>, \<open>(h,d,w)\<close>; a triple is among them exactly when it is
  a rearrangement of the original one.
\<close>

theorem orientations_give_six_permutations:
  assumes "positiveDims \<lparr> width = w, depth = d, height = h \<rparr>"
  shows "map (\<lambda>ori. getEffectiveDimensions ori \<lparr> width = w, depth = d, height = h \<rparr>)
             getAllOrientations =
           [\<lparr> width = w, depth = d, height = h \<rparr>,
            \<lparr> width = w, depth = h, height = d \<rparr>,
            \<lparr> width = d, depth = w, height = h \<rparr>,
            \<lparr> width = d, depth = h, height = w \<rparr>,
            \<lparr> width = h, depth = w, height = d \<rparr>,
            \<lparr> width = h, depth = d, height = w \<rparr>]
         \<and> (\<forall>a b c.
               (\<exists>ori \<in> set getAllOrientations.
                  getEffectiveDimensions ori \<lparr> width = w, depth = d, height = h \<rparr>
                    = \<lparr> width = a, depth = b, height = c \<rparr>)
               \<longleftrightarrow> mset [a, b, c] = mset [w, d, h])"
proof -
  have "(\<exists>ori \<in> set getAllOrientations.
            getEffectiveDimensions ori \<lparr> width = w, depth = d, height = h \<rparr>
              = \<lparr> width = a, depth = b, height = c \<rparr>)
        \<longleftrightarrow> mset [a, b, c] = mset [w, d, h]" for a b c
    unfolding mset_triple
    by (auto simp: getAllOrientations_def getEffectiveDimensions_def)
  then show ?thesis
    using effective_dimensions_all by blast
qed

theorem orientations_give_six_permutations_witness:
  "positiveDims \<lparr> width = 3, depth = 2, height = 1 \<rparr>
   \<and> map (\<lambda>ori. getEffectiveDimensions ori \<lparr> width = 3, depth = 2, height = 1 \<rparr>)
          getAllOrientations =
       [\<lparr> width = 3, depth = 2, height = 1 \<rparr>,
        \<lparr> width = 3, depth = 1, height = 2 \<rparr>,
        \<lparr> width = 2, depth = 3, height = 1 \<rparr>,
        \<lparr> width = 2, depth = 1, height = 3 \<rparr>,
        \<lparr> width = 1, depth = 3, height = 2 \<rparr>,
        \<lparr> width = 1, depth = 2, height = 3 \<rparr>]"
proof -
  have p: "positiveDims \<lparr> width = 3, depth = 2, height = 1 \<rparr>"
    by (simp add: positiveDims_def)
  from orientations_give_six_permutations [OF p] p show ?thesis by blast
qed

section \<open>The priority multiplier\<close>

text \<open>
  C7, as the spec has it, fails on the code: for the integer priority 90 and no expiry
  date the ranker's multiplier is 1.0, where the tier mapping demands 1.5 (high).
\<close>

theorem priorityMultiplier_integer_counterexample:
  "priorityMultiplier
      \<lparr> item_id = ''ITEM090'', item_name = ''Medical Supplies'',
        item_dimensions = \<lparr> width = 3, depth = 2, height = 2 \<rparr>, item_mass = 5 / 2,
        item_priority = PriorityNumber 90, item_expiryDate = None,
        item_preferredZone = None \<rparr> 0 = 1
   \<and> specMultiplier (PriorityNumber 90) False = 3 / 2"
  by (simp add: priorityMultiplier_def specMultiplier_def specTier_def)

text \<open>
  C7, amended. The ranker does no tier mapping: for every integer priority the base
  multiplier is 1.0; it is 1.5 for the string high, 0.8 for the string low and 1.0 for
  any other string. To the base it adds 0.5 exactly when the item has an expiry date
  less than 30 days (of 86400000 ms) after the current time.
\<close>

theorem priorityMultiplier_by_string_only:
  "priorityMultiplier item now =
     (case item_priority item of
        PriorityNumber n \<Rightarrow> 1
      | PriorityTier t \<Rightarrow> if t = ''high'' then 3 / 2 else if t = ''low'' then 4 / 5 else 1)
     + (case item_expiryDate item of
          None \<Rightarrow> 0
        | Some expiry \<Rightarrow> if expiry - now < 30 * 86400000 then 1 / 2 else 0)"
proof -
  have "(of_int (expiry - now) / (1000 * 60 * 60 * 24) < (30 :: rat))
          \<longleftrightarrow> expiry - now < 30 * 86400000" for expiry
  proof -
    have "(of_int (expiry - now) / (1000 * 60 * 60 * 24) < (30 :: rat))
            \<longleftrightarrow> (of_int (expiry - now) :: rat) < of_int (30 * 86400000)"
      by (simp add: divide_less_eq)
    also have "\<dots> \<longleftrightarrow> expiry - now < 30 * 86400000"
      by (simp only: of_int_less_iff)
    finally show ?thesis .
  qed
  then show ?thesis
    by (simp add: priorityMultiplier_def Let_def split: Priority.splits option.splits)
qed

theorem priorityMultiplier_by_string_only_witness:
  "priorityMultiplier
      \<lparr> item_id = ''ITEM010'', item_name = ''Spare Parts'',
        item_dimensions = \<lparr> width = 2, depth = 2, height = 1 \<rparr>, item_mass = 3,
        item_priority = PriorityNumber 10, item_expiryDate = Some 864000000,
        item_preferredZone = None \<rparr> 0 = 3 / 2"
  using priorityMultiplier_by_string_only
    [of "\<lparr> item_id = ''ITEM010'', item_name = ''Spare Parts'',
          item_dimensions = \<lparr> width = 2, depth = 2, height = 1 \<rparr>, item_mass = 3,
          item_priority = PriorityNumber 10, item_expiryDate = Some 864000000,
          item_preferredZone = None \<rparr>" 0]
  by simp

section \<open>Cells of loops, boxes and corridors\<close>

lemma set_cellsBetween:
  "set (cellsBetween sx sy sz ex ey ez) =
     {(x, y, z). sx \<le> x \<and> x \<le> ex \<and> sy \<le> y \<and> y \<le> ey \<and> sz \<le> z \<and> z \<le> ez}"
  by (force simp: cellsBetween_def)

lemma set_boxCells: "set (boxCells p d) = {c. inBox p d c}"
  by (auto simp: boxCells_def inBox_def set_cellsBetween)

lemma set_allCells: "set (allCells cd) = {c. isWithinBounds cd c}"
  by (auto simp: allCells_def isWithinBounds_def set_cellsBetween)

lemma set_pathCells: "set (pathCells s item) = {c. inCorridor s item c}"
  by (cases "openFace s")
     (auto simp: pathCells_def inCorridor_def set_cellsBetween Let_def)

lemma holdsCells_iff:
  "holdsCells s itemId \<longleftrightarrow> (\<exists>c. isWithinBounds (dimensions s) c \<and> grid s c = Some itemId)"
  by (auto simp: holdsCells_def list_ex_iff set_allCells)

lemma isSpaceFree_iff:
  "isSpaceFree s p d \<longleftrightarrow>
     (\<forall>c. inBox p d c \<longrightarrow> isWithinBounds (dimensions s) c \<and> grid s c = None)"
  by (auto simp: isSpaceFree_def list_all_iff set_boxCells)

lemma corridor_within_bounds:
  assumes "boxInside (dimensions s) (position item) (effectiveDimensions item)"
    and "inCorridor s item c"
  shows "isWithinBounds (dimensions s) c"
  using assms
  by (cases "openFace s"; cases c)
     (auto simp: boxInside_def inCorridor_def isWithinBounds_def positiveDims_def Let_def)

lemma box_within_bounds:
  assumes "boxInside cd p d" and "inBox p d c"
  shows "isWithinBounds cd c"
  using assms
  by (cases c) (auto simp: boxInside_def inBox_def isWithinBounds_def)

section \<open>Blocking items\<close>

lemma checkCellsInPath_result:
  assumes "\<forall>c \<in> set cs. isWithinBounds (dimensions s) c"
  shows "\<exists>bs. checkCellsInPath s itemId cs acc = Inr bs
              \<and> set bs = set acc \<union> {j. j \<noteq> itemId \<and> (\<exists>c \<in> set cs. grid s c = Some j)}
              \<and> (distinct acc \<longrightarrow> distinct bs)"
  using assms
proof (induction cs arbitrary: acc)
  case Nil
  then show ?case by simp
next
  case (Cons c cs)
  then have inb: "isWithinBounds (dimensions s) c"
    and rest: "\<forall>c \<in> set cs. isWithinBounds (dimensions s) c"
    by simp_all
  show ?case
  proof (cases "grid s c")
    case None
    with Cons.IH [OF rest, of acc] inb show ?thesis
      by (auto simp: gridAt_def)
  next
    case (Some j)
    show ?thesis
    proof (cases "j = itemId")
      case True
      with Some Cons.IH [OF rest, of acc] inb show ?thesis
        by (auto simp: gridAt_def)
    next
      case False
      define acc' where "acc' = (if j \<in> set acc then acc else acc @ [j])"
      have step: "checkCellsInPath s itemId (c # cs) acc = checkCellsInPath s itemId cs acc'"
        using Some False inb by (simp add: gridAt_def acc'_def)
      have sa: "set acc' = insert j (set acc)" and da: "distinct acc \<longrightarrow> distinct acc'"
        by (auto simp: acc'_def)
      from Cons.IH [OF rest, of acc'] obtain bs where
        bs: "checkCellsInPath s itemId cs acc' = Inr bs"
          "set bs = set acc' \<union> {j. j \<noteq> itemId \<and> (\<exists>c \<in> set cs. grid s c = Some j)}"
          "distinct acc' \<longrightarrow> distinct bs"
        by blast
      have "set bs = set acc \<union> {j. j \<noteq> itemId \<and> (\<exists>c \<in> set (c # cs). grid s c = Some j)}"
        using bs(2) sa Some False by auto
      with bs(1,3) step da show ?thesis by auto
    qed
  qed
qed

lemma findBlockingItems_result:
  assumes "itemsData s itemId = Some item"
    and "boxInside (dimensions s) (position item) (effectiveDimensions item)"
  shows "\<exists>bs. findBlockingItems s itemId = Inr bs \<and> distinct bs
              \<and> set bs = {j. j \<noteq> itemId \<and> (\<exists>c. inCorridor s item c \<and> grid s c = Some j)}"
proof -
  have "\<forall>c \<in> set (pathCells s item). isWithinBounds (dimensions s) c"
    using corridor_within_bounds [OF assms(2)] by (simp add: set_pathCells)
  from checkCellsInPath_result [OF this, of itemId "[]"] obtain bs where
    bs: "checkCellsInPath s itemId (pathCells s item) [] = Inr bs" "distinct bs"
      "set bs = {j. j \<noteq> itemId \<and> (\<exists>c \<in> set (pathCells s item). grid s c = Some j)}"
    by auto
  have "set bs = {j. j \<noteq> itemId \<and> (\<exists>c. inCorridor s item c \<and> grid s c = Some j)}"
    using bs(3) by (auto simp: set_pathCells)
  moreover have "findBlockingItems s itemId = Inr bs"
    using assms(1) bs(1) by (simp add: findBlockingItems_def)
  ultimately show ?thesis using bs(2) by blast
qed

text \<open>
  C3. For an item of the catalogue whose box (of positive dimensions) lies inside the
  container, \<^verbatim>\<open>findBlockingItems\<close> returns, without repetition, exactly the ids other
  than the target's that some cell of the extraction corridor holds; an id none of
  whose cells lies in the corridor is not returned, whatever its depth.
\<close>

theorem findBlockingItems_is_corridor_scan:
  assumes "itemsData s itemId = Some item"
    and "boxInside (dimensions s) (position item) (effectiveDimensions item)"
  shows "\<exists>bs. findBlockingItems s itemId = Inr bs \<and> distinct bs
              \<and> set bs = {j. j \<noteq> itemId \<and> (\<exists>c. inCorridor s item c \<and> grid s c = Some j)}
              \<and> (\<forall>j. (\<forall>c. grid s c = Some j \<longrightarrow> \<not> inCorridor s item c) \<longrightarrow> j \<notin> set bs)"
proof -
  from findBlockingItems_result [OF assms] obtain bs where
    bs: "findBlockingItems s itemId = Inr bs" "distinct bs"
      "set bs = {j. j \<noteq> itemId \<and> (\<exists>c. inCorridor s item c \<and> grid s c = Some j)}"
    by blast
  from bs(3)
  have "\<forall>j. (\<forall>c. grid s c = Some j \<longrightarrow> \<not> inCorridor s item c) \<longrightarrow> j \<notin> set bs"
    by blast
  with bs show ?thesis by blast
qed

theorem findBlockingItems_is_corridor_scan_witness:
  "itemsData seedABC ''ITEM_B'' =
     Some \<lparr> item_id = ''ITEM_B'', item_name = ''ITEM_B'',
            item_dimensions = \<lparr> width = 2, depth = 2, height = 2 \<rparr>, item_mass = 1,
            item_priority = PriorityTier ''medium'', item_expiryDate = None,
            item_preferredZone = None, position = \<lparr> pos_x = 0, pos_y = 2, pos_z = 0 \<rparr>,
            orientation = standardOrientation,
            effectiveDimensions = \<lparr> width = 2, depth = 2, height = 2 \<rparr> \<rparr>
   \<and> boxInside (dimensions seedABC) \<lparr> pos_x = 0, pos_y = 2, pos_z = 0 \<rparr>
        \<lparr> width = 2, depth = 2, height = 2 \<rparr>
   \<and> findBlockingItems seedABC ''ITEM_B'' = Inr [''ITEM_A'']
   \<and> grid seedABC (2, 1, 0) = Some ''ITEM_C''
   \<and> (\<exists>bs. findBlockingItems seedABC ''ITEM_B'' = Inr bs \<and> ''ITEM_C'' \<notin> set bs)"
proof -
  let ?b = "\<lparr> item_id = ''ITEM_B'', item_name = ''ITEM_B'',
            item_dimensions = \<lparr> width = 2, depth = 2, height = 2 \<rparr>, item_mass = 1,
            item_priority = PriorityTier ''medium'', item_expiryDate = None,
            item_preferredZone = None, position = \<lparr> pos_x = 0, pos_y = 2, pos_z = 0 \<rparr>,
            orientation = standardOrientation,
            effectiveDimensions = \<lparr> width = 2, depth = 2, height = 2 \<rparr> \<rparr>"
  have i: "itemsData seedABC ''ITEM_B'' = Some ?b"
    by code_simp
  have b: "boxInside (dimensions seedABC) (position ?b) (effectiveDimensions ?b)"
    by code_simp
  have f: "findBlockingItems seedABC ''ITEM_B'' = Inr [''ITEM_A'']"
    by code_simp
  have g: "grid seedABC (2, 1, 0) = Some ''ITEM_C''"
    by code_simp
  from findBlockingItems_is_corridor_scan [OF i b] obtain bs where
    bs: "findBlockingItems seedABC ''ITEM_B'' = Inr bs" "distinct bs"
    by blast
  from bs(1) f have "bs = [''ITEM_A'']" by simp
  then have "''ITEM_C'' \<notin> set bs" by simp
  with bs(1) i b f g show ?thesis by auto
qed

section \<open>An item on the open face\<close>

lemma cellsBetween_empty:
  "ex < sx \<or> ey < sy \<or> ez < sz \<Longrightarrow> cellsBetween sx sy sz ex ey ez = []"
  by (auto simp: cellsBetween_def)

text \<open>
  C9. For an item of the catalogue whose near face lies on the open face (the test of
  \<^verbatim>\<open>isItemVisible\<close>; position \<open>y = 0\<close> in a front-open container), the corridor loop of
  \<^verbatim>\<open>findBlockingItems\<close> visits no cell at all, so it reads nothing, raises nothing and
  returns the empty list.
\<close>

theorem findBlockingItems_on_open_face:
  assumes "itemsData s itemId = Some item"
    and "isItemVisible s itemId = Inr True"
  shows "pathCells s item = [] \<and> findBlockingItems s itemId = Inr []"
proof -
  have "pathCells s item = []"
    using assms
    by (cases "openFace s")
       (auto simp: isItemVisible_def pathCells_def Let_def intro!: cellsBetween_empty)
  then show ?thesis
    using assms(1) by (simp add: findBlockingItems_def)
qed

theorem findBlockingItems_on_open_face_witness:
  "isItemVisible seedABC ''ITEM_A'' = Inr True
   \<and> position (the (itemsData seedABC ''ITEM_A'')) = \<lparr> pos_x = 0, pos_y = 0, pos_z = 0 \<rparr>
   \<and> pathCells seedABC (the (itemsData seedABC ''ITEM_A'')) = []
   \<and> findBlockingItems seedABC ''ITEM_A'' = Inr []"
proof -
  have i: "itemsData seedABC ''ITEM_A'' = Some (the (itemsData seedABC ''ITEM_A''))"
    by code_simp
  have v: "isItemVisible seedABC ''ITEM_A'' = Inr True"
    by code_simp
  have p: "position (the (itemsData seedABC ''ITEM_A'')) = \<lparr> pos_x = 0, pos_y = 0, pos_z = 0 \<rparr>"
    by code_simp
  from findBlockingItems_on_open_face [OF i v] v p show ?thesis by simp
qed

section \<open>Retrieval plans\<close>

lemma generateRetrievalPlan_of_blockers:
  assumes "itemsData s itemId = Some item"
    and "findBlockingItems s itemId = Inr bs"
  shows "generateRetrievalPlan s itemId =
           Inr \<lparr> targetItem = itemId, itemsToMove = bs,
                 steps = (if isItemVisible s itemId = Inr True \<and> bs = []
                          then [''Retrieve item '' @ itemId @ '' directly'']
                          else map (\<lambda>b. ''Move item '' @ b @ '' to access '' @ itemId) bs
                               @ [''Retrieve item '' @ itemId]) \<rparr>"
proof -
  obtain v where v: "isItemVisible s itemId = Inr v"
    using assms(1) by (simp add: isItemVisible_def Let_def)
  show ?thesis
    using assms v
    by (cases v) (auto simp: generateRetrievalPlan_def visibleAndUnblocked_def)
qed

text \<open>
  C4. For an item of the catalogue whose box lies inside the container,
  \<^verbatim>\<open>generateRetrievalPlan\<close> returns a plan for that item whose \<open>itemsToMove\<close> is the list
  \<^verbatim>\<open>findBlockingItems\<close> returns, in the same order, and whose steps are one move per
  blocker in that order followed by the retrieval of the item; when the item is
  visible and has no blockers, the plan is the single step of direct retrieval with
  an empty move list.
\<close>

theorem generateRetrievalPlan_moves_blockers:
  assumes "itemsData s itemId = Some item"
    and "boxInside (dimensions s) (position item) (effectiveDimensions item)"
  shows "\<exists>bs. findBlockingItems s itemId = Inr bs
           \<and> generateRetrievalPlan s itemId =
               Inr \<lparr> targetItem = itemId, itemsToMove = bs,
                     steps = (if isItemVisible s itemId = Inr True \<and> bs = []
                              then [''Retrieve item '' @ itemId @ '' directly'']
                              else map (\<lambda>b. ''Move item '' @ b @ '' to access '' @ itemId) bs
                                   @ [''Retrieve item '' @ itemId]) \<rparr>"
proof -
  from findBlockingItems_result [OF assms] obtain bs where
    bs: "findBlockingItems s itemId = Inr bs"
    by blast
  from generateRetrievalPlan_of_blockers [OF assms(1) bs] bs show ?thesis by blast
qed

theorem generateRetrievalPlan_moves_blockers_witness:
  "itemsData seedABC ''ITEM_B'' = Some (the (itemsData seedABC ''ITEM_B''))
   \<and> boxInside (dimensions seedABC) (position (the (itemsData seedABC ''ITEM_B'')))
        (effectiveDimensions (the (itemsData seedABC ''ITEM_B'')))
   \<and> findBlockingItems seedABC ''ITEM_B'' = Inr [''ITEM_A'']
   \<and> generateRetrievalPlan seedABC ''ITEM_B'' =
       Inr \<lparr> targetItem = ''ITEM_B'', itemsToMove = [''ITEM_A''],
             steps = [''Move item ITEM_A to access ITEM_B'', ''Retrieve item ITEM_B''] \<rparr>"
proof -
  have i: "itemsData seedABC ''ITEM_B'' = Some (the (itemsData seedABC ''ITEM_B''))"
    by code_simp
  have b: "boxInside (dimensions seedABC) (position (the (itemsData seedABC ''ITEM_B'')))
        (effectiveDimensions (the (itemsData seedABC ''ITEM_B'')))"
    by code_simp
  have f: "findBlockingItems seedABC ''ITEM_B'' = Inr [''ITEM_A'']"
    by code_simp
  from generateRetrievalPlan_moves_blockers [OF i b] f
  have "generateRetrievalPlan seedABC ''ITEM_B'' =
       Inr \<lparr> targetItem = ''ITEM_B'', itemsToMove = [''ITEM_A''],
             steps = [''Move item ITEM_A to access ITEM_B'', ''Retrieve item ITEM_B''] \<rparr>"
    by simp
  with i b f show ?thesis by blast
qed

section \<open>Placing and removing\<close>

lemma removeItem_success:
  assumes "removeItem s itemId = Inr (s2, RemoveSuccess r)"
  shows "grid s2 = grid (releaseSpace s itemId) \<and> dimensions s2 = dimensions s
         \<and> isItemAccessible s itemId = Inr True \<and> itemsData s itemId = Some r
         \<and> itemsData s2 = itemsData s \<and> openFace s2 = openFace s
         \<and> tempState s2 = tempState s"
  using assms
  by (auto simp: removeItem_def releaseSpace_def updateContainerMetricsAfterRemove_def
      recordAccess_def Let_def split: option.splits sum.splits if_splits)

lemma placeItem_accepted:
  assumes "placeItem s itemData pos ori = (s1, True)"
  shows "isSpaceFree s pos (getEffectiveDimensions ori (item_dimensions itemData))
         \<and> grid s1 = grid (occupySpace s pos (getEffectiveDimensions ori
                             (item_dimensions itemData)) (item_id itemData))
         \<and> dimensions s1 = dimensions s \<and> openFace s1 = openFace s
         \<and> tempState s1 = tempState s"
  using assms
  by (auto simp: placeItem_def occupySpace_def Let_def split: if_splits)




section \<open>Fragmentation analysis\<close>

lemma withoutScratch_temporarilyOccupySpace:
  "withoutScratch (temporarilyOccupySpace s p d) = withoutScratch s"
  by (cases "tempState s") (simp_all add: withoutScratch_def temporarilyOccupySpace_def Let_def)

lemma restoreTemporaryState_withoutScratch:
  "restoreTemporaryState s = withoutScratch s"
  by (cases "tempState s") (simp_all add: withoutScratch_def restoreTemporaryState_def)

lemma withoutScratch_idle: "tempState s = None \<Longrightarrow> withoutScratch s = s"
  by (simp add: withoutScratch_def)

declare fragmentationLoop.simps [simp del]

lemma fragmentationLoop_withoutScratch:
  "withoutScratch (fst (fragmentationLoop fles s largestSpace spaces collected)) = withoutScratch s"
proof (induction fles s largestSpace spaces collected rule: fragmentationLoop.induct)
  case (1 fles s largestSpace spaces collected)
  show ?case
  proof (cases largestSpace)
    case None
    then show ?thesis by (simp add: fragmentationLoop.simps [of fles s])
  next
    case (Some pd)
    obtain p d where pd: "pd = (p, d)" by (cases pd) auto
    show ?thesis
    proof (cases "collected < totalVolume s - usedVolume s")
      case False
      with Some pd show ?thesis by (simp add: fragmentationLoop.simps [of fles s])
    next
      case True
      note running = this
      show ?thesis
      proof (cases "length spaces + 1 > 10")
        case True
        with Some pd running show ?thesis
          by (simp add: fragmentationLoop.simps [of fles s] Let_def
              withoutScratch_temporarilyOccupySpace)
      next
        case False
        have "withoutScratch (fst (fragmentationLoop fles (temporarilyOccupySpace s p d)
                 (fles (temporarilyOccupySpace s p d))
                 (spaces @ [\<lparr> space_position = p, space_dimensions = d,
                              volume = width d * depth d * height d \<rparr>])
                 (collected + width d * depth d * height d)))
              = withoutScratch (temporarilyOccupySpace s p d)"
          using "1.IH" [OF Some pd [symmetric] _ refl refl refl refl refl] running False
          by simp
        with Some pd running False show ?thesis
          by (simp add: fragmentationLoop.simps [of fles s] Let_def
              withoutScratch_temporarilyOccupySpace)
      qed
    qed
  qed
qed

text \<open>
  C5. In a container with no pending snapshot (every container between operations:
  only the analysis itself sets \<^verbatim>\<open>_tempState\<close>, and it clears it before returning),
  \<^verbatim>\<open>analyzeSpaceFragmentation\<close> returns the container it was given, whatever boxes
  \<^verbatim>\<open>findLargestEmptySpace\<close> yields and however many cells the loop marks as temporarily
  occupied: every cell of the grid reads as before, and so does every other field.
\<close>

theorem analyzeSpaceFragmentation_pure:
  assumes "tempState s = None"
  shows "fst (analyzeSpaceFragmentation fles s) = s
         \<and> (\<forall>c. gridAt (fst (analyzeSpaceFragmentation fles s)) c = gridAt s c)"
proof -
  obtain s1 spaces total where l: "fragmentationLoop fles s (fles s) [] 0 = (s1, spaces, total)"
    by (cases "fragmentationLoop fles s (fles s) [] 0") auto
  have "fst (analyzeSpaceFragmentation fles s) = restoreTemporaryState s1"
    by (simp add: analyzeSpaceFragmentation_def l Let_def)
  also have "\<dots> = withoutScratch (fst (fragmentationLoop fles s (fles s) [] 0))"
    by (simp add: restoreTemporaryState_withoutScratch l)
  also have "\<dots> = s"
    by (simp add: fragmentationLoop_withoutScratch withoutScratch_idle [OF assms])
  finally show ?thesis by simp
qed

theorem analyzeSpaceFragmentation_pure_witness:
  "tempState seedSmall = None
   \<and> emptySpaces (snd (analyzeSpaceFragmentation firstEmptyCell seedSmall)) = 4
   \<and> grid (fst (fragmentationLoop firstEmptyCell seedSmall (firstEmptyCell seedSmall) [] 0))
        (0, 0, 0) = Some ''TEMP_OCCUPIED''
   \<and> fst (analyzeSpaceFragmentation firstEmptyCell seedSmall) = seedSmall
   \<and> gridAt (fst (analyzeSpaceFragmentation firstEmptyCell seedSmall)) (0, 0, 0) = Inr None"
proof -
  have t: "tempState seedSmall = None"
    by code_simp
  have n: "emptySpaces (snd (analyzeSpaceFragmentation firstEmptyCell seedSmall)) = 4"
    by code_simp
  have m: "grid (fst (fragmentationLoop firstEmptyCell seedSmall
                        (firstEmptyCell seedSmall) [] 0)) (0, 0, 0) = Some ''TEMP_OCCUPIED''"
    by code_simp
  have g: "gridAt seedSmall (0, 0, 0) = Inr None"
    by code_simp
  from analyzeSpaceFragmentation_pure [OF t, of firstEmptyCell] t n m g
  show ?thesis by simp
qed

section \<open>Visibility\<close>

lemma isCellVisible_sightLine: "isCellVisible s itemId c = pathClear s itemId (sightLine s c)"
  by (cases c; cases "openFace s") (simp_all add: isCellVisible_def sightLine_def)

lemma pathClear_returns:
  assumes "\<forall>c \<in> set cs. isWithinBounds (dimensions s) c"
  shows "\<exists>b. pathClear s itemId cs = Inr b"
  using assms
  by (induction cs) (auto simp: isPositionOccupied_def gridAt_def)

lemma pathClear_true:
  assumes "\<forall>c \<in> set cs. isWithinBounds (dimensions s) c
                         \<and> (grid s c = None \<or> grid s c = Some itemId)"
  shows "pathClear s itemId cs = Inr True"
  using assms
  by (induction cs) (auto simp: isPositionOccupied_def gridAt_def)

lemma sightLine_within_bounds:
  assumes "isWithinBounds (dimensions s) c" and "c' \<in> set (sightLine s c)"
  shows "isWithinBounds (dimensions s) c'"
  using assms
  by (cases c; cases "openFace s") (auto simp: sightLine_def isWithinBounds_def)

lemma sightLine_corridor_or_box:
  assumes "inBox (position item) (effectiveDimensions item) c"
    and "isWithinBounds (dimensions s) c"
    and "c' \<in> set (sightLine s c)"
  shows "inCorridor s item c' \<or> inBox (position item) (effectiveDimensions item) c'"
  using assms
  by (cases c; cases "openFace s")
     (auto simp: sightLine_def inCorridor_def inBox_def isWithinBounds_def Let_def)

lemma countVisible_bounds:
  assumes "\<forall>c \<in> set cs. \<exists>b. isCellVisible s itemId c = Inr b"
  shows "\<exists>v. countVisible s itemId cs n = Inr v \<and> n \<le> v \<and> v \<le> n + int (length cs)"
  using assms
proof (induction cs arbitrary: n)
  case Nil
  then show ?case by simp
next
  case (Cons c cs)
  then obtain b where b: "isCellVisible s itemId c = Inr b" by auto
  from Cons have "\<forall>c \<in> set cs. \<exists>b. isCellVisible s itemId c = Inr b" by simp
  from Cons.IH [OF this, of "if b then n + 1 else n"] b show ?case
    by (cases b) auto
qed

lemma countVisible_all:
  assumes "\<forall>c \<in> set cs. isCellVisible s itemId c = Inr True"
  shows "countVisible s itemId cs n = Inr (n + int (length cs))"
  using assms
  by (induction cs arbitrary: n) auto

lemma length_concat_const:
  assumes "\<And>x. length (f x) = k"
  shows "length (concat (map f xs)) = length xs * k"
  using assms by (induction xs) auto

lemma length_cellsBetween:
  "length (cellsBetween sx sy sz ex ey ez)
     = nat (ex - sx + 1) * (nat (ey - sy + 1) * nat (ez - sz + 1))"
proof -
  have inner: "length (concat (map (\<lambda>y. map (\<lambda>z. (x, y, z)) [sz..ez]) [sy..ey]))
                 = nat (ey - sy + 1) * nat (ez - sz + 1)" for x :: int
    by (subst length_concat_const [where k = "nat (ez - sz + 1)"]) simp_all
  show ?thesis
    unfolding cellsBetween_def
    by (subst length_concat_const [where k = "nat (ey - sy + 1) * nat (ez - sz + 1)"])
       (simp_all add: inner)
qed

lemma length_boxCells:
  assumes "positiveDims d"
  shows "int (length (boxCells p d)) = width d * depth d * height d"
proof -
  from assms have w: "0 < width d" and dd: "0 < depth d" and h: "0 < height d"
    by (simp_all add: positiveDims_def)
  have "length (boxCells p d) = nat (width d) * (nat (depth d) * nat (height d))"
    by (simp add: boxCells_def length_cellsBetween)
  then have "int (length (boxCells p d))
               = int (nat (width d)) * (int (nat (depth d)) * int (nat (height d)))"
    by simp
  with w dd h show ?thesis by simp
qed

lemma ratio_bounds:
  fixes n t :: int
  assumes "0 \<le> n" and "n \<le> t" and "0 < t"
  shows "(0::rat) \<le> (of_int n / of_int t) * 100"
    and "(of_int n / of_int t) * 100 \<le> (100::rat)"
proof -
  define q :: rat where "q = of_int n / of_int t"
  have "0 \<le> q" and "q \<le> 1"
    using assms by (simp_all add: q_def divide_le_eq_1)
  then have "0 \<le> q * 100" and "q * 100 \<le> 100"
    by linarith+
  then show "(0::rat) \<le> (of_int n / of_int t) * 100"
    and "(of_int n / of_int t) * 100 \<le> (100::rat)"
    unfolding q_def by blast+
qed

lemma box_cells_visible_result:
  assumes "boxInside (dimensions s) (position item) (effectiveDimensions item)"
    and "c \<in> set (boxCells (position item) (effectiveDimensions item))"
  shows "\<exists>b. isCellVisible s itemId c = Inr b"
proof -
  from assms have "isWithinBounds (dimensions s) c"
    by (auto simp: set_boxCells intro: box_within_bounds)
  then have "\<forall>c' \<in> set (sightLine s c). isWithinBounds (dimensions s) c'"
    using sightLine_within_bounds by blast
  from pathClear_returns [OF this] show ?thesis
    by (simp add: isCellVisible_sightLine)
qed

lemma calculateVisibilityScore_bounds:
  assumes "itemsData s itemId = Some item"
    and "boxInside (dimensions s) (position item) (effectiveDimensions item)"
  shows "\<exists>v. calculateVisibilityScore s itemId = Inr v \<and> 0 \<le> v \<and> v \<le> 100"
proof -
  let ?p = "position item" and ?d = "effectiveDimensions item"
  let ?total = "width ?d * depth ?d * height ?d"
  from assms(2) have pd: "positiveDims ?d" by (simp add: boxInside_def)
  then have dims: "0 < width ?d" "0 < depth ?d" "0 < height ?d"
    by (simp_all add: positiveDims_def)
  then have tpos: "0 < ?total" by simp
  have "\<forall>c \<in> set (boxCells ?p ?d). \<exists>b. isCellVisible s itemId c = Inr b"
    using box_cells_visible_result [OF assms(2)] by blast
  from countVisible_bounds [OF this, of 0] obtain n where
    n: "countVisible s itemId (boxCells ?p ?d) 0 = Inr n" "0 \<le> n"
      "n \<le> int (length (boxCells ?p ?d))"
    by auto
  from n(3) have le: "n \<le> ?total" by (simp add: length_boxCells [OF pd])
  have sc: "calculateVisibilityScore s itemId = Inr ((of_int n / of_int ?total) * 100)"
    using assms(1) n(1) dims by (simp add: calculateVisibilityScore_def Let_def)
  have "(0::rat) \<le> (of_int n / of_int ?total) * 100"
    using n(2) le tpos by (rule ratio_bounds)
  moreover have "(of_int n / of_int ?total) * 100 \<le> (100::rat)"
    using n(2) le tpos by (rule ratio_bounds)
  ultimately show ?thesis using sc by blast
qed

lemma calculateVisibilityScore_full:
  assumes "itemsData s itemId = Some item"
    and "boxInside (dimensions s) (position item) (effectiveDimensions item)"
    and own: "\<forall>c. inBox (position item) (effectiveDimensions item) c \<longrightarrow> grid s c = Some itemId"
    and free: "\<forall>c. inCorridor s item c \<longrightarrow> grid s c = None \<or> grid s c = Some itemId"
  shows "calculateVisibilityScore s itemId = Inr 100"
proof -
  let ?p = "position item" and ?d = "effectiveDimensions item"
  let ?total = "width ?d * depth ?d * height ?d"
  from assms(2) have pd: "positiveDims ?d" by (simp add: boxInside_def)
  then have dims: "0 < width ?d" "0 < depth ?d" "0 < height ?d"
    by (simp_all add: positiveDims_def)
  then have tpos: "0 < ?total" by simp
  have "isCellVisible s itemId c = Inr True" if c: "c \<in> set (boxCells ?p ?d)" for c
  proof -
    from c have ib: "inBox ?p ?d c" by (simp add: set_boxCells)
    with assms(2) have wb: "isWithinBounds (dimensions s) c"
      by (rule box_within_bounds)
    have "\<forall>c' \<in> set (sightLine s c). isWithinBounds (dimensions s) c'
             \<and> (grid s c' = None \<or> grid s c' = Some itemId)"
    proof
      fix c' assume m: "c' \<in> set (sightLine s c)"
      from sightLine_within_bounds [OF wb m] have "isWithinBounds (dimensions s) c'" .
      moreover from sightLine_corridor_or_box [OF ib wb m] own free
      have "grid s c' = None \<or> grid s c' = Some itemId" by blast
      ultimately show "isWithinBounds (dimensions s) c'
             \<and> (grid s c' = None \<or> grid s c' = Some itemId)" by simp
    qed
    from pathClear_true [OF this] show ?thesis
      by (simp add: isCellVisible_sightLine)
  qed
  then have "countVisible s itemId (boxCells ?p ?d) 0 = Inr (0 + int (length (boxCells ?p ?d)))"
    by (intro countVisible_all) blast
  then have n: "countVisible s itemId (boxCells ?p ?d) 0 = Inr ?total"
    by (simp add: length_boxCells [OF pd])
  show ?thesis
    using assms(1) n dims by (simp add: calculateVisibilityScore_def Let_def)
qed

section \<open>Accessibility\<close>

lemma no_blockers_corridor_free:
  assumes "itemsData s itemId = Some item"
    and "boxInside (dimensions s) (position item) (effectiveDimensions item)"
    and "findBlockingItems s itemId = Inr []"
  shows "\<forall>c. inCorridor s item c \<longrightarrow> grid s c = None \<or> grid s c = Some itemId"
proof -
  from findBlockingItems_result [OF assms(1,2)] obtain bs where
    bs: "findBlockingItems s itemId = Inr bs"
      "set bs = {j. j \<noteq> itemId \<and> (\<exists>c. inCorridor s item c \<and> grid s c = Some j)}"
    by blast
  from bs(1) assms(3) have "bs = []" by simp
  with bs(2) have none: "\<forall>j. j \<noteq> itemId \<longrightarrow> (\<forall>c. inCorridor s item c \<longrightarrow> grid s c \<noteq> Some j)"
    by auto
  show ?thesis
  proof (intro allI impI)
    fix c assume "inCorridor s item c"
    with none have "\<forall>j. j \<noteq> itemId \<longrightarrow> grid s c \<noteq> Some j" by blast
    then show "grid s c = None \<or> grid s c = Some itemId"
      by (cases "grid s c") auto
  qed
qed

lemma distanceComponent_bounds:
  assumes "0 \<le> distance" and "0 < maxDistance"
  shows "\<exists>dc. distanceComponent distance maxDistance = Inr dc \<and> 0 \<le> dc \<and> dc \<le> 20"
proof -
  define q :: rat where "q = of_int distance / of_int maxDistance"
  have "0 \<le> q" using assms by (simp add: q_def)
  then have "max 0 (20 - q * 20) \<le> 20" by simp
  then have "max 0 (20 - (of_int distance / of_int maxDistance) * 20) \<le> (20::rat)"
    unfolding q_def .
  then show ?thesis
    using assms by (simp add: distanceComponent_def)
qed

lemma accessibility_score_general:
  assumes it: "itemsData s itemId = Some item"
    and bi: "boxInside (dimensions s) (position item) (effectiveDimensions item)"
    and cd: "positiveDims (dimensions s)"
  shows "\<exists>score. calculateAccessibilityScore s itemId = Inr score
           \<and> 0 \<le> score \<and> score \<le> 100
           \<and> ((\<forall>c. inBox (position item) (effectiveDimensions item) c
                      \<longrightarrow> grid s c = Some itemId)
                \<and> findBlockingItems s itemId = Inr [] \<longrightarrow> 80 \<le> score)"
proof -
  let ?p = "position item" and ?d = "effectiveDimensions item"
  let ?distance = "case openFace s of
        Front \<Rightarrow> pos_y ?p
      | Back \<Rightarrow> depth (dimensions s) - (pos_y ?p + depth ?d)
      | Left \<Rightarrow> pos_x ?p
      | Right \<Rightarrow> width (dimensions s) - (pos_x ?p + width ?d)
      | Top \<Rightarrow> height (dimensions s) - (pos_z ?p + height ?d)
      | Bottom \<Rightarrow> pos_z ?p"
  let ?maxDistance = "case openFace s of
        Front \<Rightarrow> depth (dimensions s)
      | Back \<Rightarrow> depth (dimensions s)
      | Left \<Rightarrow> width (dimensions s)
      | Right \<Rightarrow> width (dimensions s)
      | Top \<Rightarrow> height (dimensions s)
      | Bottom \<Rightarrow> height (dimensions s)"
  from calculateVisibilityScore_bounds [OF it bi] obtain v where
    v: "calculateVisibilityScore s itemId = Inr v" "0 \<le> v" "v \<le> 100"
    by blast
  from findBlockingItems_result [OF it bi] obtain bs where
    bs: "findBlockingItems s itemId = Inr bs"
    by blast
  have d0: "0 \<le> ?distance"
    using bi by (cases "openFace s") (simp_all add: boxInside_def)
  have m0: "0 < ?maxDistance"
    using cd by (cases "openFace s") (simp_all add: positiveDims_def)
  from distanceComponent_bounds [OF d0 m0] obtain dc where
    dc: "distanceComponent ?distance ?maxDistance = Inr dc" "0 \<le> dc" "dc \<le> 20"
    by blast
  define bc :: rat where "bc = max 0 (40 - of_nat (length bs) * 10)"
  have b0: "0 \<le> bc" and b1: "bc \<le> 40"
    by (simp_all add: bc_def)
  have sc: "calculateAccessibilityScore s itemId = Inr ((v / 100) * 40 + bc + dc)"
    using it v(1) bs dc(1) by (simp add: calculateAccessibilityScore_def Let_def bc_def)
  have v0: "0 \<le> (v / 100) * 40" and v1: "(v / 100) * 40 \<le> 40"
    using v(2,3) by simp_all
  have lo: "0 \<le> (v / 100) * 40 + bc + dc"
    using v0 b0 dc(2) by linarith
  have hi: "(v / 100) * 40 + bc + dc \<le> 100"
    using v1 b1 dc(3) by linarith
  have "80 \<le> (v / 100) * 40 + bc + dc"
    if own: "\<forall>c. inBox ?p ?d c \<longrightarrow> grid s c = Some itemId"
      and nb: "findBlockingItems s itemId = Inr []"
  proof -
    from no_blockers_corridor_free [OF it bi nb]
    have "calculateVisibilityScore s itemId = Inr 100"
      by (rule calculateVisibilityScore_full [OF it bi own])
    with v(1) have "v = 100" by simp
    moreover from nb bs have "bc = 40" by (simp add: bc_def)
    ultimately show ?thesis using dc(2) by simp
  qed
  with sc lo hi show ?thesis by blast
qed

section \<open>Reachable containers\<close>

lemma placeItem_catalogue:
  assumes "placeItem s itemData pos ori = (s1, True)"
    and "itemsData s1 k = Some item"
  shows "(k = item_id itemData \<and> position item = pos
            \<and> effectiveDimensions item
                = getEffectiveDimensions ori (item_dimensions itemData))
         \<or> (k \<noteq> item_id itemData \<and> itemsData s k = Some item)"
  using assms
  by (auto simp: placeItem_def occupySpace_def Let_def split: if_splits)

lemma free_box_inside:
  assumes "isSpaceFree s p d" and "positiveDims d"
  shows "boxInside (dimensions s) p d"
proof -
  from assms(2) have pos: "0 < width d" "0 < depth d" "0 < height d"
    by (simp_all add: positiveDims_def)
  have lo: "inBox p d (pos_x p, pos_y p, pos_z p)"
    using pos by (simp add: inBox_def)
  have hi: "inBox p d (pos_x p + width d - 1, pos_y p + depth d - 1, pos_z p + height d - 1)"
    using pos by (simp add: inBox_def)
  from assms(1) lo have "isWithinBounds (dimensions s) (pos_x p, pos_y p, pos_z p)"
    unfolding isSpaceFree_iff by blast
  moreover from assms(1) hi
  have "isWithinBounds (dimensions s)
          (pos_x p + width d - 1, pos_y p + depth d - 1, pos_z p + height d - 1)"
    unfolding isSpaceFree_iff by blast
  ultimately show ?thesis
    using assms(2) by (simp add: boxInside_def isWithinBounds_def)
qed

lemma catalogueConsistent_new:
  assumes "positiveDims dims"
  shows "catalogueConsistent (Container_new cid dims zn face)"
  using assms by (simp add: catalogueConsistent_def Container_new_def)

lemma catalogueConsistent_place:
  assumes inv: "catalogueConsistent s"
    and pd: "positiveDims (item_dimensions itemData)"
    and ori: "ori \<in> set getAllOrientations"
    and pl: "placeItem s itemData pos ori = (s1, True)"
  shows "catalogueConsistent s1"
proof -
  let ?d = "getEffectiveDimensions ori (item_dimensions itemData)"
  let ?id = "item_id itemData"
  from placeItem_accepted [OF pl]
  have free: "isSpaceFree s pos ?d"
    and g1: "grid s1 = grid (occupySpace s pos ?d ?id)"
    and d1: "dimensions s1 = dimensions s"
    by simp_all
  have g1c: "grid s1 c = (if inBox pos ?d c then Some ?id else grid s c)" for c
    by (simp add: g1 occupySpace_def)
  have ed: "positiveDims ?d"
    using ori pd by (rule effective_dimensions_positive)
  have bi_new: "boxInside (dimensions s) pos ?d"
    using free ed by (rule free_box_inside)
  have "boxInside (dimensions s1) (position item) (effectiveDimensions item)
        \<and> (holdsCells s1 k \<longrightarrow>
             (\<forall>c. inBox (position item) (effectiveDimensions item) c \<longrightarrow> grid s1 c = Some k))"
    if it: "itemsData s1 k = Some item" for k item
  proof -
    from placeItem_catalogue [OF pl it] show ?thesis
    proof (elim disjE conjE)
      assume "k = ?id" "position item = pos" "effectiveDimensions item = ?d"
      then show ?thesis
        using bi_new by (simp add: d1 g1c)
    next
      assume ne: "k \<noteq> ?id" and old: "itemsData s k = Some item"
      from inv old
      have bi: "boxInside (dimensions s) (position item) (effectiveDimensions item)"
        and own: "holdsCells s k \<longrightarrow>
                    (\<forall>c. inBox (position item) (effectiveDimensions item) c
                          \<longrightarrow> grid s c = Some k)"
        unfolding catalogueConsistent_def by blast+
      have "\<forall>c. inBox (position item) (effectiveDimensions item) c \<longrightarrow> grid s1 c = Some k"
        if h1: "holdsCells s1 k"
      proof -
        from h1 obtain c0 where c0: "isWithinBounds (dimensions s) c0" "grid s1 c0 = Some k"
          unfolding holdsCells_iff d1 by blast
        from c0(2) ne have "grid s c0 = Some k"
          by (simp add: g1c split: if_splits)
        with c0(1) have "holdsCells s k"
          unfolding holdsCells_iff by blast
        with own have all: "\<forall>c. inBox (position item) (effectiveDimensions item) c
                                  \<longrightarrow> grid s c = Some k"
          by blast
        show ?thesis
        proof (intro allI impI)
          fix c assume "inBox (position item) (effectiveDimensions item) c"
          with all have gc: "grid s c = Some k" by blast
          have "\<not> inBox pos ?d c"
          proof
            assume "inBox pos ?d c"
            with free have "grid s c = None" unfolding isSpaceFree_iff by blast
            with gc show False by simp
          qed
          with gc show "grid s1 c = Some k" by (simp add: g1c)
        qed
      qed
      with bi show ?thesis by (simp add: d1)
    qed
  qed
  moreover from inv have "positiveDims (dimensions s1)"
    by (simp add: catalogueConsistent_def d1)
  ultimately show ?thesis
    unfolding catalogueConsistent_def by blast
qed

lemma catalogueConsistent_remove:
  assumes inv: "catalogueConsistent s"
    and rm: "removeItem s itemId = Inr (s2, RemoveSuccess r)"
  shows "catalogueConsistent s2"
proof -
  from removeItem_success [OF rm]
  have g2: "grid s2 = grid (releaseSpace s itemId)"
    and d2: "dimensions s2 = dimensions s"
    and i2: "itemsData s2 = itemsData s"
    by simp_all
  have g2c: "grid s2 c = (if grid s c = Some itemId then None else grid s c)" for c
    by (simp add: g2 releaseSpace_def)
  have "boxInside (dimensions s2) (position item) (effectiveDimensions item)
        \<and> (holdsCells s2 k \<longrightarrow>
             (\<forall>c. inBox (position item) (effectiveDimensions item) c \<longrightarrow> grid s2 c = Some k))"
    if it: "itemsData s2 k = Some item" for k item
  proof -
    from it have old: "itemsData s k = Some item" by (simp add: i2)
    from inv old
    have bi: "boxInside (dimensions s) (position item) (effectiveDimensions item)"
      and own: "holdsCells s k \<longrightarrow>
                  (\<forall>c. inBox (position item) (effectiveDimensions item) c
                        \<longrightarrow> grid s c = Some k)"
      unfolding catalogueConsistent_def by blast+
    have "\<forall>c. inBox (position item) (effectiveDimensions item) c \<longrightarrow> grid s2 c = Some k"
      if h2: "holdsCells s2 k"
    proof -
      from h2 obtain c0 where c0: "isWithinBounds (dimensions s) c0" "grid s2 c0 = Some k"
        unfolding holdsCells_iff d2 by blast
      from c0(2) have ne: "k \<noteq> itemId" and "grid s c0 = Some k"
        by (auto simp: g2c split: if_splits)
      with c0(1) have "holdsCells s k"
        unfolding holdsCells_iff by blast
      with own have "\<forall>c. inBox (position item) (effectiveDimensions item) c
                            \<longrightarrow> grid s c = Some k"
        by blast
      with ne show ?thesis by (simp add: g2c)
    qed
    with bi show ?thesis by (simp add: d2)
  qed
  moreover from inv have "positiveDims (dimensions s2)"
    by (simp add: catalogueConsistent_def d2)
  ultimately show ?thesis
    unfolding catalogueConsistent_def by blast
qed

lemma updateContainerMetricsAfterAdd_frame:
  "grid (updateContainerMetricsAfterAdd s item) = grid s"
  "dimensions (updateContainerMetricsAfterAdd s item) = dimensions s"
  "itemsData (updateContainerMetricsAfterAdd s item) = itemsData s"
  "openFace (updateContainerMetricsAfterAdd s item) = openFace s"
  "tempState (updateContainerMetricsAfterAdd s item) = tempState s"
  by (simp_all add: updateContainerMetricsAfterAdd_def Let_def split: option.splits)

lemma catalogueConsistent_add:
  "catalogueConsistent (updateContainerMetricsAfterAdd s item) = catalogueConsistent s"
  by (simp add: catalogueConsistent_def holdsCells_def updateContainerMetricsAfterAdd_frame)

lemma reachable_consistent: "reachable s \<Longrightarrow> catalogueConsistent s"
proof (induction rule: reachable.induct)
  case (reachable_new dims cid zn face)
  then show ?case by (rule catalogueConsistent_new)
next
  case (reachable_place s itemData ori pos s')
  then show ?case by (blast intro: catalogueConsistent_place)
next
  case (reachable_add s itemData ori pos s1)
  then have "catalogueConsistent s1" by (blast intro: catalogueConsistent_place)
  then show ?case by (simp add: catalogueConsistent_add)
next
  case (reachable_remove s itemId s' itemData)
  then show ?case by (blast intro: catalogueConsistent_remove)
qed

lemma reachable_no_snapshot: "reachable s \<Longrightarrow> tempState s = None"
proof (induction rule: reachable.induct)
  case (reachable_new dims cid zn face)
  then show ?case by (simp add: Container_new_def)
next
  case (reachable_place s itemData ori pos s')
  then show ?case using placeItem_accepted by metis
next
  case (reachable_add s itemData ori pos s1)
  then have "tempState s1 = None" using placeItem_accepted by metis
  then show ?case by (simp add: updateContainerMetricsAfterAdd_frame)
next
  case (reachable_remove s itemId s' itemData)
  then show ?case using removeItem_success by metis
qed

text \<open>
  C1. In every container reachable from a new one by accepted \<^verbatim>\<open>placeItem\<close>,
  successful \<^verbatim>\<open>addItem\<close> and successful \<^verbatim>\<open>removeItem\<close> calls, and for every placed item (an entry of the
  catalogue with cells in the grid), \<^verbatim>\<open>calculateAccessibilityScore\<close> returns a number
  between 0 and 100; when moreover the item touches the open face (\<^verbatim>\<open>isItemVisible\<close>)
  and \<^verbatim>\<open>findBlockingItems\<close> returns the empty list, the score is at least 80.
  Scores are computed in exact rational arithmetic.
\<close>

theorem accessibility_score_in_range:
  assumes "reachable s" and "placed s itemId"
  shows "\<exists>score. calculateAccessibilityScore s itemId = Inr score
           \<and> 0 \<le> score \<and> score \<le> 100
           \<and> (isItemVisible s itemId = Inr True \<and> findBlockingItems s itemId = Inr []
                \<longrightarrow> 80 \<le> score)"
proof -
  from assms(2) obtain item where it: "itemsData s itemId = Some item"
    and hc: "holdsCells s itemId"
    by (auto simp: placed_def)
  from reachable_consistent [OF assms(1)] it hc
  have cd: "positiveDims (dimensions s)"
    and bi: "boxInside (dimensions s) (position item) (effectiveDimensions item)"
    and own: "\<forall>c. inBox (position item) (effectiveDimensions item) c \<longrightarrow> grid s c = Some itemId"
    unfolding catalogueConsistent_def by blast+
  from accessibility_score_general [OF it bi cd] own show ?thesis
    by blast
qed

lemma seedItem_positive: "0 < w \<Longrightarrow> 0 < d \<Longrightarrow> 0 < h \<Longrightarrow> positiveDims (item_dimensions (seedItem iid w d h))"
  by (simp add: seedItem_def positiveDims_def)

lemma standardOrientation_listed: "standardOrientation \<in> set getAllOrientations"
  by (simp add: standardOrientation_def getAllOrientations_def)

lemma reachable_seedEmpty: "reachable seedEmpty"
  unfolding seedEmpty_def by (rule reachable_new) (simp add: positiveDims_def)

lemma reachable_seedA: "reachable seedA"
proof -
  have "snd (placeItem seedEmpty (seedItem ''ITEM_A'' 2 2 2)
        \<lparr> pos_x = 0, pos_y = 0, pos_z = 0 \<rparr> standardOrientation) = True"
    by code_simp
  then have pl: "placeItem seedEmpty (seedItem ''ITEM_A'' 2 2 2)
        \<lparr> pos_x = 0, pos_y = 0, pos_z = 0 \<rparr> standardOrientation = (seedA, True)"
    by (simp add: seedA_def prod_eq_iff)
  have pd: "positiveDims (item_dimensions (seedItem ''ITEM_A'' 2 2 2))"
    by (simp add: seedItem_positive)
  show ?thesis
    by (rule reachable_place [OF reachable_seedEmpty pd standardOrientation_listed pl])
qed

lemma reachable_seedAB: "reachable seedAB"
proof -
  have "snd (placeItem seedA (seedItem ''ITEM_B'' 2 2 2)
        \<lparr> pos_x = 0, pos_y = 2, pos_z = 0 \<rparr> standardOrientation) = True"
    by code_simp
  then have pl: "placeItem seedA (seedItem ''ITEM_B'' 2 2 2)
        \<lparr> pos_x = 0, pos_y = 2, pos_z = 0 \<rparr> standardOrientation = (seedAB, True)"
    by (simp add: seedAB_def prod_eq_iff)
  have pd: "positiveDims (item_dimensions (seedItem ''ITEM_B'' 2 2 2))"
    by (simp add: seedItem_positive)
  show ?thesis
    by (rule reachable_place [OF reachable_seedA pd standardOrientation_listed pl])
qed

lemma reachable_seedABC: "reachable seedABC"
proof -
  have "snd (placeItem seedAB (seedItem ''ITEM_C'' 2 2 2)
        \<lparr> pos_x = 2, pos_y = 0, pos_z = 0 \<rparr> standardOrientation) = True"
    by code_simp
  then have pl: "placeItem seedAB (seedItem ''ITEM_C'' 2 2 2)
        \<lparr> pos_x = 2, pos_y = 0, pos_z = 0 \<rparr> standardOrientation = (seedABC, True)"
    by (simp add: seedABC_def prod_eq_iff)
  have pd: "positiveDims (item_dimensions (seedItem ''ITEM_C'' 2 2 2))"
    by (simp add: seedItem_positive)
  show ?thesis
    by (rule reachable_place [OF reachable_seedAB pd standardOrientation_listed pl])
qed

theorem accessibility_score_in_range_witness:
  "reachable seedABC \<and> placed seedABC ''ITEM_A''
   \<and> isItemVisible seedABC ''ITEM_A'' = Inr True
   \<and> findBlockingItems seedABC ''ITEM_A'' = Inr []
   \<and> (\<exists>score. calculateAccessibilityScore seedABC ''ITEM_A'' = Inr score
               \<and> 0 \<le> score \<and> score \<le> 100 \<and> 80 \<le> score)
   \<and> calculateAccessibilityScore seedABC ''ITEM_B'' = Inr 40"
proof -
  have p: "placed seedABC ''ITEM_A''"
    by code_simp
  have v: "isItemVisible seedABC ''ITEM_A'' = Inr True"
    by code_simp
  have f: "findBlockingItems seedABC ''ITEM_A'' = Inr []"
    by code_simp
  have b: "calculateAccessibilityScore seedABC ''ITEM_B'' = Inr 40"
    by code_simp
  from accessibility_score_in_range [OF reachable_seedABC p] v f
  have "\<exists>score. calculateAccessibilityScore seedABC ''ITEM_A'' = Inr score
               \<and> 0 \<le> score \<and> score \<le> 100 \<and> 80 \<le> score"
    by blast
  with reachable_seedABC p v f b show ?thesis by blast
qed

end
